theory Spec2Isabelle
  imports Complex_Main "HOL-Library.Sublist"
begin

text \<open>
  A model of the HTTP proxy for a message queue: the entry point (index.ts), the send path
  (queueMessages.ts), the receive path (receiveMessages.ts) and the responses (util.ts).
  The handlers are asynchronous and await every call, one after the other, so an
  invocation is a sequence of calls to the broker client. The broker client is a
  parameter. Logging (\<^verbatim>\<open>context.log\<close>) is left out.
\<close>

section \<open>JavaScript values\<close>

text \<open>
  Request bodies, queue messages and received messages are JSON-like JavaScript values.
  A number is modelled by its mathematical value (the program does no arithmetic on
  numbers); \<open>-0\<close> is identified with \<open>0\<close>. An object is its list of properties.
\<close>

datatype jsnum = NaN | PosInfinity | NegInfinity | Fin rat

datatype jsval =
    JUndefined
  | JNull
  | JBool bool
  | JNum jsnum
  | JStr string
  | JArr "jsval list"
  | JObj "(string \<times> jsval) list"

text \<open>JavaScript truthiness, as tested by \<^verbatim>\<open>!x\<close> and \<^verbatim>\<open>x ? a : b\<close>.\<close>

fun truthy :: "jsval \<Rightarrow> bool" where
  "truthy JUndefined = False"
| "truthy JNull = False"
| "truthy (JBool b) = b"
| "truthy (JNum n) = (n \<noteq> NaN \<and> n \<noteq> Fin 0)"
| "truthy (JStr s) = (s \<noteq> [])"
| "truthy (JArr xs) = True"
| "truthy (JObj ps) = True"

text \<open>\<^verbatim>\<open>Array.isArray\<close>.\<close>

fun isArray :: "jsval \<Rightarrow> bool" where
  "isArray (JArr xs) = True"
| "isArray v = False"

text \<open>
  A thrown value: \<open>Error m\<close> is \<^verbatim>\<open>new Error(m)\<close>, \<open>TypeError m\<close> a type error of
  the language itself, and \<open>Thrown s\<close> any value thrown by the broker client library,
  given by its string representation. \<open>String_e\<close> is \<^verbatim>\<open>String(e)\<close>.
\<close>

datatype js_error = Error string | TypeError string | Thrown string

fun String_e :: "js_error \<Rightarrow> string" where
  "String_e (Error m) = ''Error: '' @ m"
| "String_e (TypeError m) = ''TypeError: '' @ m"
| "String_e (Thrown s) = s"

text \<open>
  Reading property \<open>k\<close> of a value by destructuring (\<^verbatim>\<open>const { k } = v\<close>): undefined and
  null cannot be destructured; a property a value does not have reads as undefined. The
  keys read by the program (\<open>queueName\<close>, \<open>messages\<close> and the fields of a received message)
  are no built-in properties of strings, numbers, booleans or arrays.
\<close>

fun getProp :: "jsval \<Rightarrow> string \<Rightarrow> js_error + jsval" where
  "getProp JUndefined k = Inl (TypeError (''Cannot destructure property '' @ k))"
| "getProp JNull k = Inl (TypeError (''Cannot destructure property '' @ k))"
| "getProp (JObj ps) k = Inr (case map_of ps k of None \<Rightarrow> JUndefined | Some v \<Rightarrow> v)"
| "getProp v k = Inr JUndefined"

text \<open>
  Built-ins of the language that are not part of the program: \<^verbatim>\<open>Number(s)\<close> on a string,
  and the decimal representation of a number in a template literal.
\<close>

record js_runtime =
  Number :: "string \<Rightarrow> jsnum"
  numToString :: "jsnum \<Rightarrow> string"

text \<open>The conversion of a JSON value to a string inside a template literal.\<close>

fun joinWith :: "string \<Rightarrow> string list \<Rightarrow> string" where
  "joinWith sep [] = []"
| "joinWith sep [x] = x"
| "joinWith sep (x # y # ys) = x @ sep @ joinWith sep (y # ys)"

fun ToString :: "js_runtime \<Rightarrow> jsval \<Rightarrow> string" where
  "ToString rt JUndefined = ''undefined''"
| "ToString rt JNull = ''null''"
| "ToString rt (JBool b) = (if b then ''true'' else ''false'')"
| "ToString rt (JNum n) = numToString rt n"
| "ToString rt (JStr s) = s"
| "ToString rt (JArr xs) =
     joinWith '','' (map (\<lambda>x. if x = JUndefined \<or> x = JNull then [] else ToString rt x) xs)"
| "ToString rt (JObj ps) = ''[object Object]''"

section \<open>Requests and responses\<close>

type_synonym headers = "string \<rightharpoonup> string"
type_synonym query = "string \<rightharpoonup> string"
type_synonym env = "string \<rightharpoonup> string"

text \<open>
  The request of the host: \<open>method\<close> may be null (\<open>None\<close>), \<open>body\<close> is undefined when
  the request has none, and every query parameter is a string.
\<close>

record HttpRequest =
  "method" :: "string option"
  headers :: headers
  query :: query
  body :: jsval

text \<open>The echo of the request in a response: \<^verbatim>\<open>{ body, headers, method }\<close> or
  \<^verbatim>\<open>{ headers, method, query }\<close>.\<close>

datatype request_echo =
    EchoBody jsval headers "string option"
  | EchoQuery headers "string option" query

record ResponseBody =
  body_status :: nat
  message :: "string option"
  messages :: "jsval list option"
  request :: request_echo

record Response =
  status :: nat
  res_headers :: "(string \<times> string) list"
  res_body :: ResponseBody

definition defaultResponseHeaders :: "(string \<times> string) list" where
  "defaultResponseHeaders = [(''Content-Type'', ''application/json'')]"

definition createBadRequestResponse :: "HttpRequest \<Rightarrow> string \<Rightarrow> Response" where
  "createBadRequestResponse req msg =
     \<lparr> status = 400, res_headers = defaultResponseHeaders,
       res_body = \<lparr> body_status = 400, message = Some msg, messages = None,
                    request = EchoBody (body req) (headers req) (method req) \<rparr> \<rparr>"

definition createErrorResponse :: "HttpRequest \<Rightarrow> string \<Rightarrow> Response" where
  "createErrorResponse req msg =
     \<lparr> status = 500, res_headers = defaultResponseHeaders,
       res_body = \<lparr> body_status = 500, message = Some msg, messages = None,
                    request = EchoBody (body req) (headers req) (method req) \<rparr> \<rparr>"

text \<open>\<^verbatim>\<open>!process.env.NAME\<close>: the variable is unset or the empty string.\<close>

definition envMissing :: "env \<Rightarrow> string \<Rightarrow> bool" where
  "envMissing e name = (case e name of None \<Rightarrow> True | Some v \<Rightarrow> v = [])"

text \<open>\<^verbatim>\<open>!q\<close> for a query parameter: absent or the empty string.\<close>

definition paramMissing :: "string option \<Rightarrow> bool" where
  "paramMissing p = (case p of None \<Rightarrow> True | Some v \<Rightarrow> v = [])"

section \<open>The broker client\<close>

text \<open>
  Modelled from the spec: the batch of the broker client library, which is not part of the
  repository. A batch is an ordered, append-only collection of the messages accepted so
  far, bounded by a capacity fixed when it is created; it is created empty, and appending
  a message fails, leaving the batch as it is, when the capacity would be exceeded.
  Appending returns true or false and does not throw. The size of a batch is the sum of
  the sizes of its messages; the size of a message is the broker's.
\<close>

record batch =
  maxSizeInBytes :: nat
  items :: "jsval list"

definition batchSize :: "(jsval \<Rightarrow> nat) \<Rightarrow> jsval list \<Rightarrow> nat" where
  "batchSize sz ms = sum_list (map sz ms)"

definition emptyBatch :: "nat \<Rightarrow> batch" where
  "emptyBatch c = \<lparr> maxSizeInBytes = c, items = [] \<rparr>"

definition tryAddMessage :: "(jsval \<Rightarrow> nat) \<Rightarrow> batch \<Rightarrow> jsval \<Rightarrow> bool \<times> batch" where
  "tryAddMessage sz b m =
     (if batchSize sz (items b @ [m]) \<le> maxSizeInBytes b
      then (True, b\<lparr> items := items b @ [m] \<rparr>)
      else (False, b))"

text \<open>
  The calls the program makes on the broker client, in the order it makes them, form the
  trace of an invocation. A call that throws is part of the trace.
\<close>

datatype event =
    NewClient "string option"
  | CreateSender jsval
  | CreateReceiver "string option"
  | CreateMessageBatch
  | SendMessages batch
  | ReceiveMessages jsnum nat
  | CompleteMessage jsval
  | SenderClose
  | ReceiverClose
  | ClientClose

text \<open>
  The broker is external: what it does is a parameter. Each of its answers may depend on
  every call made before: whether a call throws (and what), the capacity of a new batch,
  the size of a message, and the messages delivered to a receive call.
\<close>

record broker =
  throws :: "event list \<Rightarrow> event \<Rightarrow> string option"
  capacity :: "event list \<Rightarrow> nat"
  sizeOf :: "jsval \<Rightarrow> nat"
  deliver :: "event list \<Rightarrow> jsnum \<Rightarrow> jsval list"

text \<open>One call: the trace grows by the call, and the call returns or throws.\<close>

definition call :: "broker \<Rightarrow> event list \<Rightarrow> event \<Rightarrow> js_error option \<times> event list" where
  "call br tr ev = (map_option Thrown (throws br tr ev), tr @ [ev])"

definition createMessageBatch :: "broker \<Rightarrow> event list \<Rightarrow> (js_error + batch) \<times> event list" where
  "createMessageBatch br tr =
     (case call br tr CreateMessageBatch of
        (Some e, tr') \<Rightarrow> (Inl e, tr')
      | (None, tr') \<Rightarrow> (Inr (emptyBatch (capacity br tr)), tr'))"

text \<open>What an invocation leaves behind: \<^verbatim>\<open>context.res\<close>, the error that left the handler
  uncaught (if any), and the trace of broker calls.\<close>

record outcome =
  res :: "Response option"
  uncaught :: "js_error option"
  trace :: "event list"

section \<open>The send path (queueMessages.ts)\<close>

definition validateQueueRequest :: "env \<Rightarrow> HttpRequest \<Rightarrow> js_error + Response option" where
  "validateQueueRequest e req =
     (case getProp (body req) ''queueName'' of
        Inl err \<Rightarrow> Inl err
      | Inr queueName \<Rightarrow>
     (case getProp (body req) ''messages'' of
        Inl err \<Rightarrow> Inl err
      | Inr msgs \<Rightarrow>
        if envMissing e ''SERVICEBUS_CONNECTION_STRING'' then
          Inr (Some (createErrorResponse req
            (CHR 0x27 # ''SERVICEBUS_CONNECTION_STRING' is missing from environment variables!'')))
        else if \<not> truthy queueName then
          Inr (Some (createBadRequestResponse req ''Missing 'queueName' from request body!''))
        else if \<not> truthy msgs then
          Inr (Some (createBadRequestResponse req ''Missing 'messages' from request body!''))
        else if \<not> isArray msgs then
          Inr (Some (createBadRequestResponse req (CHR 0x27 # ''messages' is not an array!'')))
        else Inr None))"

text \<open>The loop over the messages (lines 30 to 43), from the current batch and trace.\<close>

fun queueMessages_loop ::
  "broker \<Rightarrow> event list \<Rightarrow> batch \<Rightarrow> jsval list \<Rightarrow> (js_error + batch) \<times> event list" where
  "queueMessages_loop br tr b [] = (Inr b, tr)"
| "queueMessages_loop br tr b (m # ms) =
     (case tryAddMessage (sizeOf br) b m of
        (True, b') \<Rightarrow> queueMessages_loop br tr b' ms
      | (False, b') \<Rightarrow>
        (case call br tr (SendMessages b') of
           (Some e, tr1) \<Rightarrow> (Inl e, tr1)
         | (None, tr1) \<Rightarrow>
           (case createMessageBatch br tr1 of
              (Inl e, tr2) \<Rightarrow> (Inl e, tr2)
            | (Inr nb, tr2) \<Rightarrow>
              (case tryAddMessage (sizeOf br) nb m of
                 (False, nb') \<Rightarrow> (Inl (Error ''Message too big to fit in a batch''), tr2)
               | (True, nb') \<Rightarrow> queueMessages_loop br tr2 nb' ms))))"

definition sentResponse :: "js_runtime \<Rightarrow> HttpRequest \<Rightarrow> jsval list \<Rightarrow> jsval \<Rightarrow> Response" where
  "sentResponse rt req msgs queueName =
     \<lparr> status = 200, res_headers = defaultResponseHeaders,
       res_body = \<lparr> body_status = 200,
         message = Some (''Sent '' @ numToString rt (Fin (of_nat (length msgs)))
                         @ '' messages to queue: ''
                         @ [CHR 0x27] @ ToString rt queueName @ [CHR 0x27]),
         messages = None,
         request = EchoBody (body req) (headers req) (method req) \<rparr> \<rparr>"

text \<open>The body of the \<^verbatim>\<open>try\<close> block: the error it throws (if any), the value of
  \<^verbatim>\<open>context.res\<close> it has set (if any), and the trace.\<close>

definition queueMessages_try ::
  "js_runtime \<Rightarrow> broker \<Rightarrow> event list \<Rightarrow> HttpRequest \<Rightarrow> jsval list \<Rightarrow> jsval
     \<Rightarrow> js_error option \<times> Response option \<times> event list" where
  "queueMessages_try rt br tr req msgs queueName =
     (case createMessageBatch br tr of
        (Inl e, tr1) \<Rightarrow> (Some e, None, tr1)
      | (Inr b, tr1) \<Rightarrow>
        (case queueMessages_loop br tr1 b msgs of
           (Inl e, tr2) \<Rightarrow> (Some e, None, tr2)
         | (Inr b', tr2) \<Rightarrow>
           (case call br tr2 (SendMessages b') of
              (Some e, tr3) \<Rightarrow> (Some e, None, tr3)
            | (None, tr3) \<Rightarrow>
              (case call br tr3 SenderClose of
                 (r, tr4) \<Rightarrow> (r, Some (sentResponse rt req msgs queueName), tr4)))))"

text \<open>\<^verbatim>\<open>try { ... } catch (e) { ... } finally { await sbClient.close() }\<close>, shared by both
  handlers: a caught error replaces the response by the 500 response; the client is closed
  last, and an error of that call leaves the handler.\<close>

definition catch_finally ::
  "broker \<Rightarrow> HttpRequest \<Rightarrow> js_error option \<times> Response option \<times> event list \<Rightarrow> outcome" where
  "catch_finally br req r =
     (case r of (thrown, set_res, tr) \<Rightarrow>
        (let res' = (case thrown of
                       Some e \<Rightarrow> Some (createErrorResponse req (String_e e))
                     | None \<Rightarrow> set_res)
         in case call br tr ClientClose of
              (err, tr') \<Rightarrow> \<lparr> res = res', uncaught = err, trace = tr' \<rparr>))"

fun jsItems :: "jsval \<Rightarrow> jsval list" where
  "jsItems (JArr xs) = xs"
| "jsItems v = []"

definition queueMessages :: "js_runtime \<Rightarrow> broker \<Rightarrow> env \<Rightarrow> HttpRequest \<Rightarrow> outcome" where
  "queueMessages rt br e req =
     (case validateQueueRequest e req of
        Inl err \<Rightarrow> \<lparr> res = None, uncaught = Some err, trace = [] \<rparr>
      | Inr (Some r) \<Rightarrow> \<lparr> res = Some r, uncaught = None, trace = [] \<rparr>
      | Inr None \<Rightarrow>
        (case (getProp (body req) ''queueName'', getProp (body req) ''messages'') of
           (Inr queueName, Inr msgs) \<Rightarrow>
             (case call br [] (NewClient (e ''SERVICEBUS_CONNECTION_STRING'')) of
                (Some err, tr) \<Rightarrow> \<lparr> res = None, uncaught = Some err, trace = tr \<rparr>
              | (None, tr) \<Rightarrow>
                (case call br tr (CreateSender queueName) of
                   (Some err, tr') \<Rightarrow> \<lparr> res = None, uncaught = Some err, trace = tr' \<rparr>
                 | (None, tr') \<Rightarrow>
                     catch_finally br req
                       (queueMessages_try rt br tr' req (jsItems msgs) queueName)))
         | (Inl err, _) \<Rightarrow> \<lparr> res = None, uncaught = Some err, trace = [] \<rparr>
         | (_, Inl err) \<Rightarrow> \<lparr> res = None, uncaught = Some err, trace = [] \<rparr>))"

section \<open>The receive path (receiveMessages.ts)\<close>

definition validateReceiveRequest :: "env \<Rightarrow> HttpRequest \<Rightarrow> Response option" where
  "validateReceiveRequest e req =
     (if envMissing e ''SERVICE_BUS_CONNECTION_STRING'' then
        Some (createErrorResponse req
          (CHR 0x27 # ''SERVICE_BUS_CONNECTION_STRING' is missing from environment variables!''))
      else if paramMissing (query req ''queueName'') then
        Some (createBadRequestResponse req ''Missing 'queueName' from request query!'')
      else None)"

text \<open>\<^verbatim>\<open>count ? Number(count) : 1\<close>, the count passed to the broker.\<close>

definition requestedCount :: "js_runtime \<Rightarrow> string option \<Rightarrow> jsnum" where
  "requestedCount rt count =
     (case count of
        None \<Rightarrow> Fin 1
      | Some c \<Rightarrow> if c = [] then Fin 1 else Number rt c)"

definition maxWaitTimeInMs :: nat where
  "maxWaitTimeInMs = 20000"

text \<open>The fields copied from a received message into the response.\<close>

definition responseFields :: "string list" where
  "responseFields =
     [''body'', ''contentType'', ''correlationId'', ''deliveryCount'',
      ''enqueuedSequenceNumber'', ''enqueuedTimeUtc'', ''expiresAtUtc'', ''messageId'',
      ''partitionKey'', ''replyTo'', ''replyToSessionId'', ''scheduledEnqueueTimeUtc'',
      ''sequenceNumber'', ''sessionId'', ''state'', ''subject'', ''timeToLive'', ''to'']"

fun extractFields :: "jsval \<Rightarrow> string list \<Rightarrow> js_error + (string \<times> jsval) list" where
  "extractFields m [] = Inr []"
| "extractFields m (k # ks) =
     (case getProp m k of
        Inl e \<Rightarrow> Inl e
      | Inr v \<Rightarrow>
        (case extractFields m ks of
           Inl e \<Rightarrow> Inl e
         | Inr ps \<Rightarrow> Inr ((k, v) # ps)))"

text \<open>The loop over the received messages (lines 38 to 82): destructure the message,
  complete it, then push its projection.\<close>

fun receiveMessages_loop ::
  "broker \<Rightarrow> event list \<Rightarrow> jsval list \<Rightarrow> jsval list \<Rightarrow> (js_error + jsval list) \<times> event list" where
  "receiveMessages_loop br tr acc [] = (Inr acc, tr)"
| "receiveMessages_loop br tr acc (m # ms) =
     (case extractFields m responseFields of
        Inl e \<Rightarrow> (Inl e, tr)
      | Inr ps \<Rightarrow>
        (case call br tr (CompleteMessage m) of
           (Some e, tr1) \<Rightarrow> (Inl e, tr1)
         | (None, tr1) \<Rightarrow> receiveMessages_loop br tr1 (acc @ [JObj ps]) ms))"

definition receivedResponse :: "HttpRequest \<Rightarrow> jsval list \<Rightarrow> Response" where
  "receivedResponse req msgs =
     \<lparr> status = 200, res_headers = defaultResponseHeaders,
       res_body = \<lparr> body_status = 200, message = None, messages = Some msgs,
                    request = EchoQuery (headers req) (method req) (query req) \<rparr> \<rparr>"

definition receiveMessages_try ::
  "js_runtime \<Rightarrow> broker \<Rightarrow> event list \<Rightarrow> HttpRequest
     \<Rightarrow> js_error option \<times> Response option \<times> event list" where
  "receiveMessages_try rt br tr req =
     (let n = requestedCount rt (query req ''count'') in
      case call br tr (ReceiveMessages n maxWaitTimeInMs) of
        (Some e, tr1) \<Rightarrow> (Some e, None, tr1)
      | (None, tr1) \<Rightarrow>
        (case receiveMessages_loop br tr1 [] (deliver br tr n) of
           (Inl e, tr2) \<Rightarrow> (Some e, None, tr2)
         | (Inr msgs, tr2) \<Rightarrow>
           (case call br tr2 ReceiverClose of
              (r, tr3) \<Rightarrow> (r, Some (receivedResponse req msgs), tr3))))"

definition receiveMessages :: "js_runtime \<Rightarrow> broker \<Rightarrow> env \<Rightarrow> HttpRequest \<Rightarrow> outcome" where
  "receiveMessages rt br e req =
     (case validateReceiveRequest e req of
        Some r \<Rightarrow> \<lparr> res = Some r, uncaught = None, trace = [] \<rparr>
      | None \<Rightarrow>
        (case call br [] (NewClient (e ''SERVICE_BUS_CONNECTION_STRING'')) of
           (Some err, tr) \<Rightarrow> \<lparr> res = None, uncaught = Some err, trace = tr \<rparr>
         | (None, tr) \<Rightarrow>
           (case call br tr (CreateReceiver (query req ''queueName'')) of
              (Some err, tr') \<Rightarrow> \<lparr> res = None, uncaught = Some err, trace = tr' \<rparr>
            | (None, tr') \<Rightarrow> catch_finally br req (receiveMessages_try rt br tr' req))))"

section \<open>The entry point (index.ts)\<close>

text \<open>\<^verbatim>\<open>${method}\<close> in a template literal: null prints as \<open>null\<close>.\<close>

definition methodString :: "string option \<Rightarrow> string" where
  "methodString m = (case m of None \<Rightarrow> ''null'' | Some s \<Rightarrow> s)"

definition methodNotAllowed :: "HttpRequest \<Rightarrow> Response" where
  "methodNotAllowed req =
     \<lparr> status = 405, res_headers = defaultResponseHeaders,
       res_body = \<lparr> body_status = 405,
         message = Some (''Method '' @ [CHR 0x27] @ methodString (method req) @ '' not allowed!''),
         messages = None,
         request = EchoBody (body req) (headers req) (method req) \<rparr> \<rparr>"

definition httpTrigger :: "js_runtime \<Rightarrow> broker \<Rightarrow> env \<Rightarrow> HttpRequest \<Rightarrow> outcome" where
  "httpTrigger rt br e req =
     (if method req = Some ''GET'' then receiveMessages rt br e req
      else if method req = Some ''POST'' then queueMessages rt br e req
      else \<lparr> res = Some (methodNotAllowed req), uncaught = None, trace = [] \<rparr>)"

section \<open>A runtime and brokers for the worked examples\<close>

text \<open>
  \<^verbatim>\<open>Number(s)\<close> on a string, after the language's grammar of numeric string literals:
  white space is trimmed, the empty string is 0, then an optional sign with \<open>Infinity\<close> or
  a decimal literal (digits, fraction, exponent), or an unsigned binary, octal or
  hexadecimal integer literal; every other string is NaN. The value is the mathematical
  value of the literal, which the language then rounds to a double. Of the white space
  characters, the ASCII ones are recognised.
\<close>

definition digitTable :: "(char \<times> nat) list" where
  "digitTable =
     [(CHR ''0'', 0), (CHR ''1'', 1), (CHR ''2'', 2), (CHR ''3'', 3), (CHR ''4'', 4),
      (CHR ''5'', 5), (CHR ''6'', 6), (CHR ''7'', 7), (CHR ''8'', 8), (CHR ''9'', 9),
      (CHR ''a'', 10), (CHR ''b'', 11), (CHR ''c'', 12), (CHR ''d'', 13), (CHR ''e'', 14),
      (CHR ''f'', 15), (CHR ''A'', 10), (CHR ''B'', 11), (CHR ''C'', 12), (CHR ''D'', 13),
      (CHR ''E'', 14), (CHR ''F'', 15)]"

definition digitOf :: "nat \<Rightarrow> char \<Rightarrow> nat option" where
  "digitOf base c =
     (case map_of digitTable c of
        None \<Rightarrow> None
      | Some d \<Rightarrow> if d < base then Some d else None)"

fun digitsValue :: "nat \<Rightarrow> nat \<Rightarrow> string \<Rightarrow> nat option" where
  "digitsValue base acc [] = Some acc"
| "digitsValue base acc (c # cs) =
     (case digitOf base c of
        None \<Rightarrow> None
      | Some d \<Rightarrow> digitsValue base (acc * base + d) cs)"

definition isWhiteSpace :: "char \<Rightarrow> bool" where
  "isWhiteSpace c = (c \<in> set [CHR 0x09, CHR 0x0A, CHR 0x0B, CHR 0x0C, CHR 0x0D, CHR 0x20])"

definition trim :: "string \<Rightarrow> string" where
  "trim s = rev (dropWhile isWhiteSpace (rev (dropWhile isWhiteSpace s)))"

definition signedDigits :: "string \<Rightarrow> int option" where
  "signedDigits s =
     (case s of
        [] \<Rightarrow> None
      | c # cs \<Rightarrow>
          if c = CHR ''-'' then
            (if cs = [] then None else map_option (\<lambda>n. - int n) (digitsValue 10 0 cs))
          else if c = CHR ''+'' then
            (if cs = [] then None else map_option int (digitsValue 10 0 cs))
          else map_option int (digitsValue 10 0 s))"

definition mantissaValue :: "string \<Rightarrow> rat option" where
  "mantissaValue s =
     (let ip = takeWhile (\<lambda>c. c \<noteq> CHR ''.'') s;
          rest = dropWhile (\<lambda>c. c \<noteq> CHR ''.'') s
      in if rest = [] then
           (if ip = [] then None else map_option of_nat (digitsValue 10 0 ip))
         else
           (let fp = tl rest
            in if ip = [] \<and> fp = [] then None
               else map_option (\<lambda>n. of_nat n / 10 ^ length fp) (digitsValue 10 0 (ip @ fp))))"

definition unsignedDecimal :: "string \<Rightarrow> jsnum" where
  "unsignedDecimal s =
     (if s = ''Infinity'' then PosInfinity
      else
        (let isE = (\<lambda>c. c = CHR ''e'' \<or> c = CHR ''E'');
             mant = takeWhile (\<lambda>c. \<not> isE c) s;
             ex = dropWhile (\<lambda>c. \<not> isE c) s
         in case mantissaValue mant of
              None \<Rightarrow> NaN
            | Some q \<Rightarrow>
                if ex = [] then Fin q
                else (case signedDigits (tl ex) of
                        None \<Rightarrow> NaN
                      | Some k \<Rightarrow>
                          if 0 \<le> k then Fin (q * 10 ^ nat k) else Fin (q / 10 ^ nat (- k)))))"

definition negate :: "jsnum \<Rightarrow> jsnum" where
  "negate n =
     (case n of
        NaN \<Rightarrow> NaN
      | PosInfinity \<Rightarrow> NegInfinity
      | NegInfinity \<Rightarrow> PosInfinity
      | Fin q \<Rightarrow> Fin (- q))"

definition radixLiteral :: "nat \<Rightarrow> string \<Rightarrow> jsnum" where
  "radixLiteral base ds =
     (if ds = [] then NaN
      else case digitsValue base 0 ds of None \<Rightarrow> NaN | Some n \<Rightarrow> Fin (of_nat n))"

definition StringToNumber :: "string \<Rightarrow> jsnum" where
  "StringToNumber str =
     (let s = trim str
      in if s = [] then Fin 0
         else if take 2 s = ''0x'' \<or> take 2 s = ''0X'' then radixLiteral 16 (drop 2 s)
         else if take 2 s = ''0o'' \<or> take 2 s = ''0O'' then radixLiteral 8 (drop 2 s)
         else if take 2 s = ''0b'' \<or> take 2 s = ''0B'' then radixLiteral 2 (drop 2 s)
         else if hd s = CHR ''-'' then negate (unsignedDecimal (tl s))
         else if hd s = CHR ''+'' then unsignedDecimal (tl s)
         else unsignedDecimal s)"

text \<open>
  The decimal representation of a number, as a template literal prints it: the digits of
  an integer; for a number with a fraction, at most twenty digits of the fraction. (The
  language changes to exponent notation from \<open>10^21\<close> on and below \<open>10^-6\<close>.)
\<close>

definition digitChar :: "nat \<Rightarrow> char" where
  "digitChar d = ''0123456789'' ! (d mod 10)"

fun showNat :: "nat \<Rightarrow> string" where
  "showNat n = (if n < 10 then [digitChar n] else showNat (n div 10) @ [digitChar (n mod 10)])"

fun fractionDigits :: "nat \<Rightarrow> rat \<Rightarrow> string" where
  "fractionDigits 0 q = []"
| "fractionDigits (Suc k) q =
     (if q = 0 then []
      else digitChar (nat \<lfloor>q * 10\<rfloor>) # fractionDigits k (q * 10 - of_int \<lfloor>q * 10\<rfloor>))"

definition numberToString :: "jsnum \<Rightarrow> string" where
  "numberToString n =
     (case n of
        NaN \<Rightarrow> ''NaN''
      | PosInfinity \<Rightarrow> ''Infinity''
      | NegInfinity \<Rightarrow> ''-Infinity''
      | Fin q \<Rightarrow>
          (let a = \<bar>q\<bar>; whole = nat \<lfloor>a\<rfloor>; frac = a - of_int \<lfloor>a\<rfloor>
           in (if q < 0 then ''-'' else [])
              @ showNat whole
              @ (if frac = 0 then [] else ''.'' @ fractionDigits 20 frac)))"

definition exampleRuntime :: js_runtime where
  "exampleRuntime = \<lparr> Number = StringToNumber, numToString = numberToString \<rparr>"

text \<open>
  A broker for the examples: it holds a queue of messages, reports the same capacity for
  every batch, takes the length of a string message for its size (1 for any other
  message), delivers at most the requested number of messages from the front of its queue,
  and throws on the calls that \<open>bad\<close> selects.
\<close>

fun exampleSize :: "jsval \<Rightarrow> nat" where
  "exampleSize (JStr s) = length s"
| "exampleSize v = 1"

definition exampleDeliver :: "jsval list \<Rightarrow> jsnum \<Rightarrow> jsval list" where
  "exampleDeliver queue n =
     (case n of
        Fin q \<Rightarrow> take (nat \<lfloor>q\<rfloor>) queue
      | PosInfinity \<Rightarrow> queue
      | _ \<Rightarrow> [])"

definition exampleBroker :: "nat \<Rightarrow> jsval list \<Rightarrow> (event \<Rightarrow> bool) \<Rightarrow> broker" where
  "exampleBroker c queue bad =
     \<lparr> throws = (\<lambda>tr ev. if bad ev then Some ''ServiceBusError: the call failed'' else None),
       capacity = (\<lambda>tr. c),
       sizeOf = exampleSize,
       deliver = (\<lambda>tr. exampleDeliver queue) \<rparr>"

definition neverFails :: "event \<Rightarrow> bool" where
  "neverFails ev = False"

definition exampleEnv :: env where
  "exampleEnv = [''SERVICEBUS_CONNECTION_STRING'' \<mapsto> ''Endpoint=sb://example/'',
                 ''SERVICE_BUS_CONNECTION_STRING'' \<mapsto> ''Endpoint=sb://example/'']"

definition postRequest :: "jsval \<Rightarrow> HttpRequest" where
  "postRequest b = \<lparr> method = Some ''POST'', headers = Map.empty, query = Map.empty, body = b \<rparr>"

definition getRequest :: "(string \<times> string) list \<Rightarrow> HttpRequest" where
  "getRequest q = \<lparr> method = Some ''GET'', headers = Map.empty, query = map_of q, body = JUndefined \<rparr>"

definition sendBody :: "string \<Rightarrow> jsval list \<Rightarrow> jsval" where
  "sendBody q ms = JObj [(''queueName'', JStr q), (''messages'', JArr ms)]"

definition putRequest :: HttpRequest where
  "putRequest = \<lparr> method = Some ''PUT'', headers = Map.empty, query = Map.empty, body = JUndefined \<rparr>"

definition countRequest :: "string \<Rightarrow> HttpRequest" where
  "countRequest c = getRequest [(''queueName'', ''q1''), (''count'', c)]"

section \<open>Reading a trace\<close>

text \<open>The batches passed to \<^verbatim>\<open>sendMessages\<close>, in the order of the calls, and their
  messages, concatenated.\<close>

fun sentBatches :: "event list \<Rightarrow> batch list" where
  "sentBatches [] = []"
| "sentBatches (SendMessages b # es) = b # sentBatches es"
| "sentBatches (ev # es) = sentBatches es"

definition sentMessages :: "event list \<Rightarrow> jsval list" where
  "sentMessages tr = concat (map items (sentBatches tr))"


text \<open>The first call of the calls \<open>tr\<close>, made after the calls \<open>pre\<close>, that threw, with
  what it threw; \<open>None\<close> when every call returned.\<close>

fun firstThrow :: "broker \<Rightarrow> event list \<Rightarrow> event list \<Rightarrow> (event \<times> string) option" where
  "firstThrow br pre [] = None"
| "firstThrow br pre (ev # es) =
     (case throws br pre ev of
        Some s \<Rightarrow> Some (ev, s)
      | None \<Rightarrow> firstThrow br (pre @ [ev]) es)"

text \<open>The capacities the broker reported to the \<^verbatim>\<open>createMessageBatch\<close> calls among the
  calls \<open>tr\<close>, made after the calls \<open>pre\<close>.\<close>

fun reportedCapacities :: "broker \<Rightarrow> event list \<Rightarrow> event list \<Rightarrow> nat list" where
  "reportedCapacities br pre [] = []"
| "reportedCapacities br pre (ev # es) =
     (if ev = CreateMessageBatch then [capacity br pre] else [])
     @ reportedCapacities br (pre @ [ev]) es"


text \<open>The test of \<^verbatim>\<open>tryAddMessage\<close>, and the batch after a message is added.\<close>

definition fits :: "broker \<Rightarrow> batch \<Rightarrow> jsval \<Rightarrow> bool" where
  "fits br b m = (batchSize (sizeOf br) (items b @ [m]) \<le> maxSizeInBytes b)"

definition added :: "batch \<Rightarrow> jsval \<Rightarrow> batch" where
  "added b m = b\<lparr> items := items b @ [m] \<rparr>"

text \<open>The calls made inside the \<^verbatim>\<open>try\<close> block of a handler.\<close>

fun insideTry :: "event \<Rightarrow> bool" where
  "insideTry (NewClient c) = False"
| "insideTry (CreateSender q) = False"
| "insideTry (CreateReceiver q) = False"
| "insideTry ClientClose = False"
| "insideTry ev = True"

text \<open>What a request asks to send, and the calls a handler makes before its
  \<^verbatim>\<open>try\<close> block.\<close>

definition requestMessages :: "HttpRequest \<Rightarrow> jsval list" where
  "requestMessages req =
     (case getProp (body req) ''messages'' of Inr (JArr ms) \<Rightarrow> ms | _ \<Rightarrow> [])"

definition requestQueueName :: "HttpRequest \<Rightarrow> jsval" where
  "requestQueueName req =
     (case getProp (body req) ''queueName'' of Inr q \<Rightarrow> q | Inl err \<Rightarrow> JUndefined)"

definition sendStart :: "env \<Rightarrow> HttpRequest \<Rightarrow> event list" where
  "sendStart e req =
     [NewClient (e ''SERVICEBUS_CONNECTION_STRING''), CreateSender (requestQueueName req)]"

definition receiveStart :: "env \<Rightarrow> HttpRequest \<Rightarrow> event list" where
  "receiveStart e req =
     [NewClient (e ''SERVICE_BUS_CONNECTION_STRING''), CreateReceiver (query req ''queueName'')]"

text \<open>The state in which the loop of the send path starts: the request is valid, the
  client, the sender and the first batch have been created.\<close>

definition sendReady :: "broker \<Rightarrow> env \<Rightarrow> HttpRequest \<Rightarrow> (batch \<times> event list) option" where
  "sendReady br e req =
     (if validateQueueRequest e req = Inr None
         \<and> firstThrow br [] (sendStart e req @ [CreateMessageBatch]) = None
      then Some (emptyBatch (capacity br (sendStart e req)), sendStart e req @ [CreateMessageBatch])
      else None)"

text \<open>The projection of a received message that the response carries.\<close>

definition project :: "jsval \<Rightarrow> jsval" where
  "project m = (case extractFields m responseFields of Inr ps \<Rightarrow> JObj ps | Inl err \<Rightarrow> JUndefined)"

text \<open>Requests of the examples.\<close>

definition threeMessages :: HttpRequest where
  "threeMessages = postRequest (sendBody ''q1'' [JStr ''ab'', JStr ''cd'', JStr ''efg''])"


definition noMessages :: HttpRequest where
  "noMessages = postRequest (sendBody ''q1'' [])"

definition smallThenBig :: HttpRequest where
  "smallThenBig = postRequest (sendBody ''q1'' [JStr ''ab'', JStr ''abcdefgh'', JStr ''cd''])"

definition message1 :: jsval where
  "message1 = JObj [(''body'', JStr ''first''), (''messageId'', JStr ''1'')]"

definition message2 :: jsval where
  "message2 = JObj [(''body'', JStr ''second''), (''messageId'', JStr ''2'')]"

definition failsOn :: "event \<Rightarrow> event \<Rightarrow> bool" where
  "failsOn bad ev = (ev = bad)"

definition firstBatch :: batch where
  "firstBatch = \<lparr>maxSizeInBytes = 5, items = [JStr ''ab'', JStr ''cd'']\<rparr>"

definition theClient :: event where
  "theClient = NewClient (Some ''Endpoint=sb://example/'')"

section \<open>Facts about the examples\<close>

lemma StringToNumber_abc: "StringToNumber ''abc'' = NaN"
  by (simp add: StringToNumber_def trim_def isWhiteSpace_def unsignedDecimal_def
      mantissaValue_def digitOf_def digitTable_def)

lemma StringToNumber_2: "StringToNumber ''2'' = Fin 2"
  by (simp add: StringToNumber_def trim_def isWhiteSpace_def unsignedDecimal_def
      mantissaValue_def digitOf_def digitTable_def)

lemma exampleEnv_simps:
  "exampleEnv ''SERVICE_BUS_CONNECTION_STRING'' = Some ''Endpoint=sb://example/''"
  "exampleEnv ''SERVICEBUS_CONNECTION_STRING'' = Some ''Endpoint=sb://example/''"
  by (simp_all add: exampleEnv_def)

text \<open>The runs of the examples on the send path.\<close>

lemmas send_eval = queueMessages_def validateQueueRequest_def envMissing_def exampleEnv_simps
  postRequest_def sendBody_def call_def exampleBroker_def neverFails_def catch_finally_def
  queueMessages_try_def createMessageBatch_def emptyBatch_def tryAddMessage_def batchSize_def
  sentResponse_def createErrorResponse_def



lemma exampleBroker_simps:
  "throws (exampleBroker c queue neverFails) tr ev = None"
  "capacity (exampleBroker c queue bad) tr = c"
  "sizeOf (exampleBroker c queue bad) = exampleSize"
  by (simp_all add: exampleBroker_def neverFails_def)

lemma smallThenBig_start:
  "sendReady (exampleBroker 5 [] neverFails) exampleEnv smallThenBig
     = Some (\<lparr>maxSizeInBytes = 5, items = []\<rparr>,
             [NewClient (Some ''Endpoint=sb://example/''), CreateSender (JStr ''q1''),
              CreateMessageBatch])"
  by (simp add: sendReady_def smallThenBig_def validateQueueRequest_def postRequest_def
      sendBody_def envMissing_def exampleEnv_simps sendStart_def requestQueueName_def
      exampleBroker_simps emptyBatch_def)

lemma noMessages_run:
  "trace (queueMessages exampleRuntime (exampleBroker 5 [] neverFails) exampleEnv noMessages)
     = [NewClient (Some ''Endpoint=sb://example/''), CreateSender (JStr ''q1''), CreateMessageBatch,
        SendMessages \<lparr>maxSizeInBytes = 5, items = []\<rparr>, SenderClose, ClientClose]"
  "map_option status (res (queueMessages exampleRuntime (exampleBroker 5 [] neverFails) exampleEnv noMessages))
     = Some 200"
  by (simp_all add: noMessages_def send_eval)

text \<open>The runs of the examples on the receive path.\<close>

lemmas receive_eval = receiveMessages_def validateReceiveRequest_def envMissing_def
  exampleEnv_simps paramMissing_def countRequest_def getRequest_def call_def exampleBroker_def
  neverFails_def failsOn_def catch_finally_def receiveMessages_try_def maxWaitTimeInMs_def
  exampleDeliver_def requestedCount_def exampleRuntime_def StringToNumber_2 StringToNumber_abc
  receivedResponse_def createErrorResponse_def responseFields_def project_def
  message1_def message2_def


lemma secondCompleteFails_run:
  "trace (receiveMessages exampleRuntime
        (exampleBroker 5 [message1, message2] (failsOn (CompleteMessage message2)))
        exampleEnv (countRequest ''2''))
     = [NewClient (Some ''Endpoint=sb://example/''), CreateReceiver (Some ''q1''),
        ReceiveMessages (Fin 2) 20000, CompleteMessage message1, CompleteMessage message2,
        ClientClose]"
  "map_option (messages \<circ> res_body) (res (receiveMessages exampleRuntime
        (exampleBroker 5 [message1, message2] (failsOn (CompleteMessage message2)))
        exampleEnv (countRequest ''2''))) = Some None"
  "map_option status (res (receiveMessages exampleRuntime
        (exampleBroker 5 [message1, message2] (failsOn (CompleteMessage message2)))
        exampleEnv (countRequest ''2''))) = Some 500"
  "throws (exampleBroker 5 [message1, message2] (failsOn (CompleteMessage message2)))
     [NewClient (Some ''Endpoint=sb://example/''), CreateReceiver (Some ''q1''),
      ReceiveMessages (Fin 2) 20000] (CompleteMessage message1) = None"
  by (simp_all add: receive_eval)

text \<open>Runs in which a call of the broker throws, and runs without connection string.\<close>

lemma sendFails_run:
  "trace (queueMessages exampleRuntime (exampleBroker 5 [] (failsOn (SendMessages firstBatch)))
      exampleEnv threeMessages)
     = [theClient, CreateSender (JStr ''q1''), CreateMessageBatch, SendMessages firstBatch,
        ClientClose]"
  "map_option status (res (queueMessages exampleRuntime
      (exampleBroker 5 [] (failsOn (SendMessages firstBatch))) exampleEnv threeMessages)) = Some 500"
  "map_option (message \<circ> res_body) (res (queueMessages exampleRuntime
      (exampleBroker 5 [] (failsOn (SendMessages firstBatch))) exampleEnv threeMessages))
     = Some (Some ''ServiceBusError: the call failed'')"
  "uncaught (queueMessages exampleRuntime
      (exampleBroker 5 [] (failsOn (SendMessages firstBatch))) exampleEnv threeMessages) = None"
  by (simp_all add: threeMessages_def send_eval failsOn_def firstBatch_def theClient_def)

lemma constructorFails_run:
  "queueMessages exampleRuntime (exampleBroker 5 [] (failsOn theClient)) exampleEnv threeMessages
     = \<lparr> res = None, uncaught = Some (Thrown ''ServiceBusError: the call failed''),
         trace = [theClient] \<rparr>"
  by (simp add: threeMessages_def send_eval failsOn_def theClient_def)

lemma clientCloseFails_run:
  "uncaught (queueMessages exampleRuntime (exampleBroker 5 [] (failsOn ClientClose)) exampleEnv
      noMessages) = Some (Thrown ''ServiceBusError: the call failed'')"
  "trace (queueMessages exampleRuntime (exampleBroker 5 [] (failsOn ClientClose)) exampleEnv
      noMessages)
     = [theClient, CreateSender (JStr ''q1''), CreateMessageBatch,
        SendMessages \<lparr>maxSizeInBytes = 5, items = []\<rparr>, SenderClose, ClientClose]"
  "uncaught (receiveMessages exampleRuntime (exampleBroker 5 [] (failsOn ClientClose)) exampleEnv
      (countRequest ''2'')) = Some (Thrown ''ServiceBusError: the call failed'')"
  "trace (receiveMessages exampleRuntime (exampleBroker 5 [] (failsOn ClientClose)) exampleEnv
      (countRequest ''2''))
     = [theClient, CreateReceiver (Some ''q1''), ReceiveMessages (Fin 2) 20000, ReceiverClose,
        ClientClose]"
  by (simp_all add: noMessages_def send_eval receive_eval theClient_def)


section \<open>The loop of the send path, case by case\<close>

lemma tryAddMessage_fits:
  "tryAddMessage (sizeOf br) b m = (if fits br b m then (True, added b m) else (False, b))"
  by (simp add: tryAddMessage_def fits_def added_def)

lemma createMessageBatch_simps:
  "throws br tr CreateMessageBatch = None \<Longrightarrow>
     createMessageBatch br tr = (Inr (emptyBatch (capacity br tr)), tr @ [CreateMessageBatch])"
  "throws br tr CreateMessageBatch = Some s \<Longrightarrow>
     createMessageBatch br tr = (Inl (Thrown s), tr @ [CreateMessageBatch])"
  by (simp_all add: createMessageBatch_def call_def)

lemma call_simps:
  "throws br tr ev = None \<Longrightarrow> call br tr ev = (None, tr @ [ev])"
  "throws br tr ev = Some s \<Longrightarrow> call br tr ev = (Some (Thrown s), tr @ [ev])"
  by (simp_all add: call_def)

lemma queueMessages_loop_accept:
  "fits br b m \<Longrightarrow> queueMessages_loop br tr b (m # ms) = queueMessages_loop br tr (added b m) ms"
  by (simp add: tryAddMessage_fits)

lemma queueMessages_loop_send_throws:
  "\<not> fits br b m \<Longrightarrow> throws br tr (SendMessages b) = Some s \<Longrightarrow>
     queueMessages_loop br tr b (m # ms) = (Inl (Thrown s), tr @ [SendMessages b])"
  by (simp add: tryAddMessage_fits call_simps)

lemma queueMessages_loop_create_throws:
  "\<not> fits br b m \<Longrightarrow> throws br tr (SendMessages b) = None \<Longrightarrow>
   throws br (tr @ [SendMessages b]) CreateMessageBatch = Some s \<Longrightarrow>
     queueMessages_loop br tr b (m # ms)
       = (Inl (Thrown s), tr @ [SendMessages b, CreateMessageBatch])"
  by (simp add: tryAddMessage_fits call_simps createMessageBatch_simps)

lemma queueMessages_loop_too_big:
  "\<not> fits br b m \<Longrightarrow> throws br tr (SendMessages b) = None \<Longrightarrow>
   throws br (tr @ [SendMessages b]) CreateMessageBatch = None \<Longrightarrow>
   \<not> fits br (emptyBatch (capacity br (tr @ [SendMessages b]))) m \<Longrightarrow>
     queueMessages_loop br tr b (m # ms)
       = (Inl (Error ''Message too big to fit in a batch''), tr @ [SendMessages b, CreateMessageBatch])"
  by (simp add: tryAddMessage_fits call_simps createMessageBatch_simps)

lemma queueMessages_loop_retry:
  "\<not> fits br b m \<Longrightarrow> throws br tr (SendMessages b) = None \<Longrightarrow>
   throws br (tr @ [SendMessages b]) CreateMessageBatch = None \<Longrightarrow>
   fits br (emptyBatch (capacity br (tr @ [SendMessages b]))) m \<Longrightarrow>
     queueMessages_loop br tr b (m # ms)
       = queueMessages_loop br (tr @ [SendMessages b, CreateMessageBatch])
           (added (emptyBatch (capacity br (tr @ [SendMessages b]))) m) ms"
  by (simp add: tryAddMessage_fits call_simps createMessageBatch_simps)

lemma queueMessages_loop_induct [consumes 1, case_names Done Accept SendThrows CreateThrows TooBig Retry]:
  assumes run: "queueMessages_loop br tr b ms = (r, tr')"
    and base: "\<And>tr b. P tr b [] (Inr b) tr"
    and accept: "\<And>tr b m ms r tr'. fits br b m \<Longrightarrow>
        queueMessages_loop br tr (added b m) ms = (r, tr') \<Longrightarrow>
        P tr (added b m) ms r tr' \<Longrightarrow> P tr b (m # ms) r tr'"
    and sendThrows: "\<And>tr b m ms s. \<not> fits br b m \<Longrightarrow> throws br tr (SendMessages b) = Some s \<Longrightarrow>
        P tr b (m # ms) (Inl (Thrown s)) (tr @ [SendMessages b])"
    and createThrows: "\<And>tr b m ms s. \<not> fits br b m \<Longrightarrow> throws br tr (SendMessages b) = None \<Longrightarrow>
        throws br (tr @ [SendMessages b]) CreateMessageBatch = Some s \<Longrightarrow>
        P tr b (m # ms) (Inl (Thrown s)) (tr @ [SendMessages b, CreateMessageBatch])"
    and tooBig: "\<And>tr b m ms. \<not> fits br b m \<Longrightarrow> throws br tr (SendMessages b) = None \<Longrightarrow>
        throws br (tr @ [SendMessages b]) CreateMessageBatch = None \<Longrightarrow>
        \<not> fits br (emptyBatch (capacity br (tr @ [SendMessages b]))) m \<Longrightarrow>
        P tr b (m # ms) (Inl (Error ''Message too big to fit in a batch''))
          (tr @ [SendMessages b, CreateMessageBatch])"
    and retry: "\<And>tr b m ms r tr'. \<not> fits br b m \<Longrightarrow> throws br tr (SendMessages b) = None \<Longrightarrow>
        throws br (tr @ [SendMessages b]) CreateMessageBatch = None \<Longrightarrow>
        fits br (emptyBatch (capacity br (tr @ [SendMessages b]))) m \<Longrightarrow>
        queueMessages_loop br (tr @ [SendMessages b, CreateMessageBatch])
           (added (emptyBatch (capacity br (tr @ [SendMessages b]))) m) ms = (r, tr') \<Longrightarrow>
        P (tr @ [SendMessages b, CreateMessageBatch])
           (added (emptyBatch (capacity br (tr @ [SendMessages b]))) m) ms r tr' \<Longrightarrow>
        P tr b (m # ms) r tr'"
  shows "P tr b ms r tr'"
  using run
proof (induction ms arbitrary: tr b)
  case Nil
  then have "r = Inr b" "tr' = tr" by auto
  then show ?case using base by simp
next
  case (Cons m ms)
  show ?case
  proof (cases "fits br b m")
    case True
    with Cons.prems have "queueMessages_loop br tr (added b m) ms = (r, tr')"
      by (simp add: queueMessages_loop_accept del: queueMessages_loop.simps)
    with True Cons.IH show ?thesis using accept by blast
  next
    case nf: False
    show ?thesis
    proof (cases "throws br tr (SendMessages b)")
      case (Some s)
      with nf Cons.prems sendThrows [OF nf Some, of ms] show ?thesis
        by (simp add: queueMessages_loop_send_throws del: queueMessages_loop.simps)
    next
      case sent: None
      show ?thesis
      proof (cases "throws br (tr @ [SendMessages b]) CreateMessageBatch")
        case (Some s)
        with nf sent Cons.prems createThrows [OF nf sent Some, of ms] show ?thesis
          by (simp add: queueMessages_loop_create_throws del: queueMessages_loop.simps)
      next
        case created: None
        show ?thesis
        proof (cases "fits br (emptyBatch (capacity br (tr @ [SendMessages b]))) m")
          case False
          with nf sent created Cons.prems tooBig [OF nf sent created False, of ms] show ?thesis
            by (simp add: queueMessages_loop_too_big del: queueMessages_loop.simps)
        next
          case True
          with nf sent created Cons.prems
          have "queueMessages_loop br (tr @ [SendMessages b, CreateMessageBatch])
                 (added (emptyBatch (capacity br (tr @ [SendMessages b]))) m) ms = (r, tr')"
            by (simp add: queueMessages_loop_retry del: queueMessages_loop.simps)
          with nf sent created True Cons.IH show ?thesis using retry by blast
        qed
      qed
    qed
  qed
qed

section \<open>Invariants of the loop of the send path\<close>

lemma sentBatches_append: "sentBatches (xs @ ys) = sentBatches xs @ sentBatches ys"
  by (induction xs rule: sentBatches.induct) simp_all

lemma sentMessages_append: "sentMessages (xs @ ys) = sentMessages xs @ sentMessages ys"
  by (simp add: sentMessages_def sentBatches_append)

lemma sentMessages_simps:
  "sentMessages [] = []"
  "sentMessages [SendMessages b] = items b"
  "sentMessages [CreateMessageBatch] = []"
  "sentMessages [SenderClose] = []"
  "sentMessages [ClientClose] = []"
  "sentMessages [NewClient c] = []"
  "sentMessages [CreateSender q] = []"
  by (simp_all add: sentMessages_def)

lemma firstThrow_append:
  "firstThrow br pre (xs @ ys) =
     (case firstThrow br pre xs of Some x \<Rightarrow> Some x | None \<Rightarrow> firstThrow br (pre @ xs) ys)"
  by (induction xs arbitrary: pre) (simp_all split: option.splits)

lemma reportedCapacities_append:
  "reportedCapacities br pre (xs @ ys) =
     reportedCapacities br pre xs @ reportedCapacities br (pre @ xs) ys"
  by (induction xs arbitrary: pre) simp_all

lemma items_added: "items (added b m) = items b @ [m]"
  by (simp add: added_def)


lemma items_emptyBatch: "items (emptyBatch c) = []" "maxSizeInBytes (emptyBatch c) = c"
  by (simp_all add: emptyBatch_def)



text \<open>What the loop has sent and holds, against what it was given.\<close>

lemma queueMessages_loop_sent:
  assumes "queueMessages_loop br tr b ms = (r, tr')"
  shows "(case r of
            Inr b' \<Rightarrow> sentMessages tr' @ items b' = sentMessages tr @ items b @ ms
          | Inl e \<Rightarrow> prefix (sentMessages tr') (sentMessages tr @ items b @ ms))"
  using assms
proof (induction rule: queueMessages_loop_induct)
  case (Done tr b)
  then show ?case by simp
next
  case (Accept tr b m ms r tr')
  then show ?case by (simp add: items_added split: sum.splits)
next
  case (SendThrows tr b m ms s)
  then show ?case by (simp add: sentMessages_append sentMessages_simps)
next
  case (CreateThrows tr b m ms s)
  have "sentMessages (tr @ [SendMessages b, CreateMessageBatch]) = sentMessages tr @ items b"
    by (simp add: sentMessages_def sentBatches_append)
  then show ?case by simp
next
  case (TooBig tr b m ms)
  have "sentMessages (tr @ [SendMessages b, CreateMessageBatch]) = sentMessages tr @ items b"
    by (simp add: sentMessages_def sentBatches_append)
  then show ?case by simp
next
  case (Retry tr b m ms r tr')
  have "sentMessages (tr @ [SendMessages b, CreateMessageBatch]) = sentMessages tr @ items b"
    by (simp add: sentMessages_def sentBatches_append)
  with Retry.IH show ?case by (simp add: items_added items_emptyBatch split: sum.splits)
qed


text \<open>From a batch that is not empty, the loop sends no empty batch and ends with a batch
  that is not empty.\<close>

lemma queueMessages_loop_nonempty:
  assumes "queueMessages_loop br tr b ms = (r, tr')"
    and "items b \<noteq> []" and "list_all (\<lambda>x. items x \<noteq> []) (sentBatches tr)"
  shows "list_all (\<lambda>x. items x \<noteq> []) (sentBatches tr') \<and> (\<forall>b'. r = Inr b' \<longrightarrow> items b' \<noteq> [])"
  using assms
proof (induction rule: queueMessages_loop_induct)
  case (Done tr b)
  then show ?case by simp
next
  case (Accept tr b m ms r tr')
  then show ?case by (simp add: items_added)
next
  case (SendThrows tr b m ms s)
  then show ?case by (simp add: sentBatches_append)
next
  case (CreateThrows tr b m ms s)
  then show ?case by (simp add: sentBatches_append)
next
  case (TooBig tr b m ms)
  then show ?case by (simp add: sentBatches_append)
next
  case (Retry tr b m ms r tr')
  then show ?case by (simp add: sentBatches_append items_added)
qed


text \<open>The loop extends the trace by calls of the \<^verbatim>\<open>try\<close> block; when it throws what a
  call threw, that call is the last and the first that threw; otherwise every call
  returned.\<close>

lemma queueMessages_loop_calls:
  assumes "queueMessages_loop br tr b ms = (r, tr')"
  shows "\<exists>new. tr' = tr @ new \<and> list_all insideTry new \<and> SenderClose \<notin> set new
           \<and> (case r of
                 Inl (Thrown s) \<Rightarrow> new \<noteq> [] \<and> firstThrow br tr new = Some (last new, s)
               | _ \<Rightarrow> firstThrow br tr new = None)"
  using assms
proof (induction rule: queueMessages_loop_induct)
  case (Done tr b)
  then show ?case by simp
next
  case (Accept tr b m ms r tr')
  then show ?case by simp
next
  case (SendThrows tr b m ms s)
  then show ?case by simp
next
  case (CreateThrows tr b m ms s)
  then show ?case by simp
next
  case (TooBig tr b m ms)
  then show ?case by simp
next
  case (Retry tr b m ms r tr')
  then obtain new where new: "tr' = (tr @ [SendMessages b, CreateMessageBatch]) @ new"
    "list_all insideTry new" "SenderClose \<notin> set new"
    "(case r of Inl (Thrown s) \<Rightarrow> new \<noteq> [] \<and>
          firstThrow br (tr @ [SendMessages b, CreateMessageBatch]) new = Some (last new, s)
      | _ \<Rightarrow> firstThrow br (tr @ [SendMessages b, CreateMessageBatch]) new = None)"
    by blast
  let ?new = "[SendMessages b, CreateMessageBatch] @ new"
  have "tr' = tr @ ?new" using new(1) by simp
  moreover have "list_all insideTry ?new" "SenderClose \<notin> set ?new" using new(2,3) by simp_all
  moreover have "(case r of Inl (Thrown s) \<Rightarrow> ?new \<noteq> [] \<and> firstThrow br tr ?new = Some (last ?new, s)
      | _ \<Rightarrow> firstThrow br tr ?new = None)"
    using new(4) Retry.hyps by (auto split: sum.splits js_error.splits)
  ultimately show ?case by blast
qed

section \<open>The ways through the send path\<close>

lemma validateQueueRequest_passes:
  assumes "validateQueueRequest e req = Inr None"
  shows "\<exists>ms. getProp (body req) ''queueName'' = Inr (requestQueueName req)
           \<and> getProp (body req) ''messages'' = Inr (JArr ms) \<and> requestMessages req = ms"
proof -
  from assms obtain q v where q: "getProp (body req) ''queueName'' = Inr q"
    and v: "getProp (body req) ''messages'' = Inr v"
    by (auto simp: validateQueueRequest_def split: sum.splits)
  with assms have "isArray v"
    by (auto simp: validateQueueRequest_def split: if_splits)
  then obtain ms where "v = JArr ms" by (cases v) auto
  with q v show ?thesis by (simp add: requestQueueName_def requestMessages_def)
qed

lemma queueMessages_try_cases [consumes 1, case_names CreateThrows LoopThrows SendThrows Finished]:
  assumes "queueMessages_try rt br tr0 req msgs q = (thrown, sr, tr')"
  obtains s where "throws br tr0 CreateMessageBatch = Some s" "thrown = Some (Thrown s)"
      "sr = None" "tr' = tr0 @ [CreateMessageBatch]"
  | err where "throws br tr0 CreateMessageBatch = None"
      "queueMessages_loop br (tr0 @ [CreateMessageBatch]) (emptyBatch (capacity br tr0)) msgs
         = (Inl err, tr')"
      "thrown = Some err" "sr = None"
  | b' tr2 s where "throws br tr0 CreateMessageBatch = None"
      "queueMessages_loop br (tr0 @ [CreateMessageBatch]) (emptyBatch (capacity br tr0)) msgs
         = (Inr b', tr2)"
      "throws br tr2 (SendMessages b') = Some s" "thrown = Some (Thrown s)" "sr = None"
      "tr' = tr2 @ [SendMessages b']"
  | b' tr2 where "throws br tr0 CreateMessageBatch = None"
      "queueMessages_loop br (tr0 @ [CreateMessageBatch]) (emptyBatch (capacity br tr0)) msgs
         = (Inr b', tr2)"
      "throws br tr2 (SendMessages b') = None"
      "thrown = map_option Thrown (throws br (tr2 @ [SendMessages b']) SenderClose)"
      "sr = Some (sentResponse rt req msgs q)"
      "tr' = tr2 @ [SendMessages b', SenderClose]"
proof (cases "throws br tr0 CreateMessageBatch")
  case (Some s)
  with assms that(1) show ?thesis
    by (simp add: queueMessages_try_def createMessageBatch_simps)
next
  case created: None
  obtain r tr2 where loop:
    "queueMessages_loop br (tr0 @ [CreateMessageBatch]) (emptyBatch (capacity br tr0)) msgs = (r, tr2)"
    by (cases "queueMessages_loop br (tr0 @ [CreateMessageBatch]) (emptyBatch (capacity br tr0)) msgs")
  show ?thesis
  proof (cases r)
    case (Inl err)
    with assms created loop that(2) show ?thesis
      by (simp add: queueMessages_try_def createMessageBatch_simps)
  next
    case (Inr b')
    show ?thesis
    proof (cases "throws br tr2 (SendMessages b')")
      case (Some s)
      with assms created loop Inr that(3) show ?thesis
        by (simp add: queueMessages_try_def createMessageBatch_simps call_simps)
    next
      case None
      with assms created loop Inr that(4) show ?thesis
        by (simp add: queueMessages_try_def createMessageBatch_simps call_def)
    qed
  qed
qed

text \<open>The outcome of the send path, by the way it leaves the handler.\<close>

lemma queueMessages_cases [consumes 0, case_names Destructure Invalid NewClientThrows CreateSenderThrows Tried]:
  obtains err where "validateQueueRequest e req = Inl err"
      "queueMessages rt br e req = \<lparr> res = None, uncaught = Some err, trace = [] \<rparr>"
  | r where "validateQueueRequest e req = Inr (Some r)"
      "queueMessages rt br e req = \<lparr> res = Some r, uncaught = None, trace = [] \<rparr>"
  | s where "validateQueueRequest e req = Inr None"
      "throws br [] (NewClient (e ''SERVICEBUS_CONNECTION_STRING'')) = Some s"
      "queueMessages rt br e req = \<lparr> res = None, uncaught = Some (Thrown s),
          trace = [NewClient (e ''SERVICEBUS_CONNECTION_STRING'')] \<rparr>"
  | s where "validateQueueRequest e req = Inr None"
      "throws br [] (NewClient (e ''SERVICEBUS_CONNECTION_STRING'')) = None"
      "throws br [NewClient (e ''SERVICEBUS_CONNECTION_STRING'')] (CreateSender (requestQueueName req)) = Some s"
      "queueMessages rt br e req = \<lparr> res = None, uncaught = Some (Thrown s), trace = sendStart e req \<rparr>"
  | thrown sr tr' where "validateQueueRequest e req = Inr None"
      "firstThrow br [] (sendStart e req) = None"
      "queueMessages_try rt br (sendStart e req) req (requestMessages req) (requestQueueName req)
         = (thrown, sr, tr')"
      "queueMessages rt br e req =
         \<lparr> res = (case thrown of Some err \<Rightarrow> Some (createErrorResponse req (String_e err))
                                | None \<Rightarrow> sr),
           uncaught = map_option Thrown (throws br tr' ClientClose),
           trace = tr' @ [ClientClose] \<rparr>"
proof (cases "validateQueueRequest e req")
  case (Inl err)
  with that(1) show ?thesis by (simp add: queueMessages_def)
next
  case (Inr v)
  show ?thesis
  proof (cases v)
    case (Some r)
    with Inr that(2) show ?thesis by (simp add: queueMessages_def)
  next
    case None
    with Inr have valid: "validateQueueRequest e req = Inr None" by simp
    from validateQueueRequest_passes [OF valid] obtain ms where
      g: "getProp (body req) ''queueName'' = Inr (requestQueueName req)"
         "getProp (body req) ''messages'' = Inr (JArr ms)" "requestMessages req = ms"
      by blast
    show ?thesis
    proof (cases "throws br [] (NewClient (e ''SERVICEBUS_CONNECTION_STRING''))")
      case (Some s)
      with valid g that(3) show ?thesis by (simp add: queueMessages_def call_simps)
    next
      case c1: None
      show ?thesis
      proof (cases "throws br [NewClient (e ''SERVICEBUS_CONNECTION_STRING'')] (CreateSender (requestQueueName req))")
        case (Some s)
        with valid g c1 that(4) show ?thesis
          by (simp add: queueMessages_def call_simps sendStart_def)
      next
        case c2: None
        obtain thrown sr tr' where t:
          "queueMessages_try rt br (sendStart e req) req (requestMessages req) (requestQueueName req)
             = (thrown, sr, tr')"
          by (metis prod_cases3)
        have "firstThrow br [] (sendStart e req) = None"
          using c1 c2 by (simp add: sendStart_def)
        moreover have "queueMessages rt br e req =
         \<lparr> res = (case thrown of Some err \<Rightarrow> Some (createErrorResponse req (String_e err))
                                | None \<Rightarrow> sr),
           uncaught = map_option Thrown (throws br tr' ClientClose),
           trace = tr' @ [ClientClose] \<rparr>"
          using valid g c1 c2 t
          by (simp add: queueMessages_def call_simps sendStart_def catch_finally_def call_def)
        ultimately show ?thesis using valid t that(5) by blast
      qed
    qed
  qed
qed

text \<open>What the \<^verbatim>\<open>try\<close> block of the send path has sent.\<close>

lemma sentMessages_sendStart: "sentMessages (sendStart e req) = []" "sentBatches (sendStart e req) = []"
  by (simp_all add: sendStart_def sentMessages_def)

lemma reportedCapacities_mono:
  "c \<in> set (reportedCapacities br [] tr) \<Longrightarrow> c \<in> set (reportedCapacities br [] (tr @ ys))"
  by (simp add: reportedCapacities_append)


lemma status_createErrorResponse: "status (createErrorResponse req msg) = 500"
  by (simp add: createErrorResponse_def)



text \<open>The loop on a list of messages continues from where it was after a prefix of it.\<close>

lemma queueMessages_loop_append:
  "queueMessages_loop br tr b (xs @ ys) =
     (case queueMessages_loop br tr b xs of
        (Inl err, t) \<Rightarrow> (Inl err, t)
      | (Inr b', t) \<Rightarrow> queueMessages_loop br t b' ys)"
proof -
  obtain r tr' where run: "queueMessages_loop br tr b xs = (r, tr')"
    by (cases "queueMessages_loop br tr b xs")
  from run have "queueMessages_loop br tr b (xs @ ys) =
     (case (r, tr') of (Inl err, t) \<Rightarrow> (Inl err, t) | (Inr b', t) \<Rightarrow> queueMessages_loop br t b' ys)"
  proof (induction rule: queueMessages_loop_induct)
    case (Done tr b)
    then show ?case by simp
  next
    case (Accept tr b m ms r tr')
    then show ?case by (simp add: queueMessages_loop_accept del: queueMessages_loop.simps)
  next
    case (SendThrows tr b m ms s)
    then show ?case by (simp add: queueMessages_loop_send_throws del: queueMessages_loop.simps)
  next
    case (CreateThrows tr b m ms s)
    then show ?case by (simp add: queueMessages_loop_create_throws del: queueMessages_loop.simps)
  next
    case (TooBig tr b m ms)
    then show ?case by (simp add: queueMessages_loop_too_big del: queueMessages_loop.simps)
  next
    case (Retry tr b m ms r tr')
    then show ?case by (simp add: queueMessages_loop_retry del: queueMessages_loop.simps)
  qed
  with run show ?thesis by simp
qed

lemma sendReady_Some:
  assumes "sendReady br e req = Some (b0, tr0)"
  shows "validateQueueRequest e req = Inr None"
    and "firstThrow br [] (sendStart e req) = None"
    and "throws br (sendStart e req) CreateMessageBatch = None"
    and "b0 = emptyBatch (capacity br (sendStart e req))"
    and "tr0 = sendStart e req @ [CreateMessageBatch]"
  using assms
  by (auto simp: sendReady_def firstThrow_append split: if_splits option.splits)

section \<open>The ways through the receive path\<close>



lemma extractFields_project: "extractFields m responseFields = Inr ps \<Longrightarrow> JObj ps = project m"
  by (simp add: project_def)

lemma receiveMessages_loop_induct [consumes 1, case_names Done Destructure CompleteThrows Completed]:
  assumes run: "receiveMessages_loop br tr acc ms = (r, tr')"
    and base: "\<And>tr acc. P tr acc [] (Inr acc) tr"
    and destructure: "\<And>tr acc m ms err. extractFields m responseFields = Inl err \<Longrightarrow>
        P tr acc (m # ms) (Inl err) tr"
    and completeThrows: "\<And>tr acc m ms ps s. extractFields m responseFields = Inr ps \<Longrightarrow>
        throws br tr (CompleteMessage m) = Some s \<Longrightarrow>
        P tr acc (m # ms) (Inl (Thrown s)) (tr @ [CompleteMessage m])"
    and completed: "\<And>tr acc m ms r tr'. throws br tr (CompleteMessage m) = None \<Longrightarrow>
        receiveMessages_loop br (tr @ [CompleteMessage m]) (acc @ [project m]) ms = (r, tr') \<Longrightarrow>
        P (tr @ [CompleteMessage m]) (acc @ [project m]) ms r tr' \<Longrightarrow>
        P tr acc (m # ms) r tr'"
  shows "P tr acc ms r tr'"
  using run
proof (induction ms arbitrary: tr acc)
  case Nil
  then have "r = Inr acc" "tr' = tr" by auto
  then show ?case using base by simp
next
  case (Cons m ms)
  show ?case
  proof (cases "extractFields m responseFields")
    case (Inl err)
    with Cons.prems destructure [OF Inl, of tr acc ms] show ?thesis by simp
  next
    case (Inr ps)
    show ?thesis
    proof (cases "throws br tr (CompleteMessage m)")
      case (Some s)
      with Inr Cons.prems completeThrows [OF Inr Some, of acc ms] show ?thesis
        by (simp add: call_simps)
    next
      case None
      with Inr Cons.prems
      have "receiveMessages_loop br (tr @ [CompleteMessage m]) (acc @ [project m]) ms = (r, tr')"
        by (simp add: call_simps extractFields_project)
      with None Cons.IH show ?thesis using completed by blast
    qed
  qed
qed

text \<open>The loop of the receive path completes the messages in their order, one call for
  each, and stops at the first call that throws; it ends normally with the projections of
  all the messages, each pushed after its call returned.\<close>

lemma receiveMessages_loop_calls:
  assumes "receiveMessages_loop br tr acc ms = (r, tr')"
  shows "\<exists>new. tr' = tr @ new \<and> prefix new (map CompleteMessage ms)
           \<and> (case r of
                 Inl (Thrown s) \<Rightarrow> new \<noteq> [] \<and> firstThrow br tr new = Some (last new, s)
               | _ \<Rightarrow> firstThrow br tr new = None)
           \<and> (\<forall>acc'. r = Inr acc' \<longrightarrow> new = map CompleteMessage ms \<and> acc' = acc @ map project ms)"
  using assms
proof (induction rule: receiveMessages_loop_induct)
  case (Done tr acc)
  then show ?case by simp
next
  case (Destructure tr acc m ms err)
  then have "\<exists>k. err = TypeError k"
    by (cases m) (auto simp: responseFields_def)
  then show ?case by auto
next
  case (CompleteThrows tr acc m ms ps s)
  then show ?case by simp
next
  case (Completed tr acc m ms r tr')
  then obtain new where new: "tr' = (tr @ [CompleteMessage m]) @ new"
    "prefix new (map CompleteMessage ms)"
    "(case r of Inl (Thrown s) \<Rightarrow> new \<noteq> [] \<and>
          firstThrow br (tr @ [CompleteMessage m]) new = Some (last new, s)
      | _ \<Rightarrow> firstThrow br (tr @ [CompleteMessage m]) new = None)"
    "\<forall>acc'. r = Inr acc' \<longrightarrow> new = map CompleteMessage ms \<and> acc' = (acc @ [project m]) @ map project ms"
    by blast
  let ?new = "CompleteMessage m # new"
  have "tr' = tr @ ?new" using new(1) by simp
  moreover have "prefix ?new (map CompleteMessage (m # ms))" using new(2) by simp
  moreover have "(case r of Inl (Thrown s) \<Rightarrow> ?new \<noteq> [] \<and> firstThrow br tr ?new = Some (last ?new, s)
      | _ \<Rightarrow> firstThrow br tr ?new = None)"
    using new(3) Completed.hyps(1) by (auto split: sum.splits js_error.splits)
  moreover have "\<forall>acc'. r = Inr acc' \<longrightarrow> ?new = map CompleteMessage (m # ms) \<and> acc' = acc @ map project (m # ms)"
    using new(4) by simp
  ultimately show ?case by blast
qed

lemma receiveMessages_try_cases [consumes 1, case_names ReceiveThrows LoopThrows Finished]:
  assumes "receiveMessages_try rt br tr0 req = (thrown, sr, tr')"
  obtains s where
      "throws br tr0 (ReceiveMessages (requestedCount rt (query req ''count'')) maxWaitTimeInMs) = Some s"
      "thrown = Some (Thrown s)" "sr = None"
      "tr' = tr0 @ [ReceiveMessages (requestedCount rt (query req ''count'')) maxWaitTimeInMs]"
  | err where
      "throws br tr0 (ReceiveMessages (requestedCount rt (query req ''count'')) maxWaitTimeInMs) = None"
      "receiveMessages_loop br
         (tr0 @ [ReceiveMessages (requestedCount rt (query req ''count'')) maxWaitTimeInMs]) []
         (deliver br tr0 (requestedCount rt (query req ''count''))) = (Inl err, tr')"
      "thrown = Some err" "sr = None"
  | msgs tr2 where
      "throws br tr0 (ReceiveMessages (requestedCount rt (query req ''count'')) maxWaitTimeInMs) = None"
      "receiveMessages_loop br
         (tr0 @ [ReceiveMessages (requestedCount rt (query req ''count'')) maxWaitTimeInMs]) []
         (deliver br tr0 (requestedCount rt (query req ''count''))) = (Inr msgs, tr2)"
      "thrown = map_option Thrown (throws br tr2 ReceiverClose)"
      "sr = Some (receivedResponse req msgs)"
      "tr' = tr2 @ [ReceiverClose]"
proof -
  let ?n = "requestedCount rt (query req ''count'')"
  let ?ev = "ReceiveMessages ?n maxWaitTimeInMs"
  show ?thesis
  proof (cases "throws br tr0 ?ev")
    case (Some s)
    with assms that(1) show ?thesis
      by (simp add: receiveMessages_try_def call_simps)
  next
    case None
    obtain r tr2 where loop: "receiveMessages_loop br (tr0 @ [?ev]) [] (deliver br tr0 ?n) = (r, tr2)"
      by (cases "receiveMessages_loop br (tr0 @ [?ev]) [] (deliver br tr0 ?n)")
    show ?thesis
    proof (cases r)
      case (Inl err)
      with assms None loop that(2) show ?thesis
        by (simp add: receiveMessages_try_def call_simps)
    next
      case (Inr msgs)
      with assms None loop that(3) show ?thesis
        by (simp add: receiveMessages_try_def call_simps call_def)
    qed
  qed
qed

lemma receiveMessages_cases [consumes 0, case_names Invalid NewClientThrows CreateReceiverThrows Tried]:
  obtains r where "validateReceiveRequest e req = Some r"
      "receiveMessages rt br e req = \<lparr> res = Some r, uncaught = None, trace = [] \<rparr>"
  | s where "validateReceiveRequest e req = None"
      "throws br [] (NewClient (e ''SERVICE_BUS_CONNECTION_STRING'')) = Some s"
      "receiveMessages rt br e req = \<lparr> res = None, uncaught = Some (Thrown s),
          trace = [NewClient (e ''SERVICE_BUS_CONNECTION_STRING'')] \<rparr>"
  | s where "validateReceiveRequest e req = None"
      "throws br [] (NewClient (e ''SERVICE_BUS_CONNECTION_STRING'')) = None"
      "throws br [NewClient (e ''SERVICE_BUS_CONNECTION_STRING'')]
         (CreateReceiver (query req ''queueName'')) = Some s"
      "receiveMessages rt br e req = \<lparr> res = None, uncaught = Some (Thrown s),
          trace = receiveStart e req \<rparr>"
  | thrown sr tr' where "validateReceiveRequest e req = None"
      "firstThrow br [] (receiveStart e req) = None"
      "receiveMessages_try rt br (receiveStart e req) req = (thrown, sr, tr')"
      "receiveMessages rt br e req =
         \<lparr> res = (case thrown of Some err \<Rightarrow> Some (createErrorResponse req (String_e err))
                                | None \<Rightarrow> sr),
           uncaught = map_option Thrown (throws br tr' ClientClose),
           trace = tr' @ [ClientClose] \<rparr>"
proof (cases "validateReceiveRequest e req")
  case (Some r)
  with that(1) show ?thesis by (simp add: receiveMessages_def)
next
  case valid: None
  show ?thesis
  proof (cases "throws br [] (NewClient (e ''SERVICE_BUS_CONNECTION_STRING''))")
    case (Some s)
    with valid that(2) show ?thesis by (simp add: receiveMessages_def call_simps)
  next
    case c1: None
    show ?thesis
    proof (cases "throws br [NewClient (e ''SERVICE_BUS_CONNECTION_STRING'')]
         (CreateReceiver (query req ''queueName''))")
      case (Some s)
      with valid c1 that(3) show ?thesis
        by (simp add: receiveMessages_def call_simps receiveStart_def)
    next
      case c2: None
      obtain thrown sr tr' where t:
        "receiveMessages_try rt br (receiveStart e req) req = (thrown, sr, tr')"
        by (metis prod_cases3)
      have "firstThrow br [] (receiveStart e req) = None"
        using c1 c2 by (simp add: receiveStart_def)
      moreover have "receiveMessages rt br e req =
         \<lparr> res = (case thrown of Some err \<Rightarrow> Some (createErrorResponse req (String_e err))
                                | None \<Rightarrow> sr),
           uncaught = map_option Thrown (throws br tr' ClientClose),
           trace = tr' @ [ClientClose] \<rparr>"
        using valid c1 c2 t
        by (simp add: receiveMessages_def call_simps receiveStart_def catch_finally_def call_def)
      ultimately show ?thesis using valid t that(4) by blast
    qed
  qed
qed



section \<open>The calls of a handler\<close>

lemma firstThrow_snoc:
  "firstThrow br pre (xs @ [ev]) =
     (case firstThrow br pre xs of
        Some x \<Rightarrow> Some x
      | None \<Rightarrow> map_option (Pair ev) (throws br (pre @ xs) ev))"
  by (simp add: firstThrow_append split: option.splits)

text \<open>The calls of the \<^verbatim>\<open>try\<close> block of the send path.\<close>

lemma queueMessages_try_calls:
  assumes "queueMessages_try rt br tr0 req msgs q = (thrown, sr, tr')"
  shows "\<exists>new. tr' = tr0 @ new \<and> new \<noteq> [] \<and> list_all insideTry new
      \<and> (case thrown of
            Some (Thrown s) \<Rightarrow> firstThrow br tr0 new = Some (last new, s)
          | _ \<Rightarrow> firstThrow br tr0 new = None)
      \<and> (SenderClose \<in> set new \<longrightarrow>
            (\<exists>init. new = init @ [SenderClose] \<and> SenderClose \<notin> set init
               \<and> firstThrow br tr0 init = None))
      \<and> (sr \<noteq> None \<longrightarrow> SenderClose \<in> set new)"
  using assms
proof (cases rule: queueMessages_try_cases)
  case (CreateThrows s)
  then show ?thesis by simp
next
  case (LoopThrows err)
  from queueMessages_loop_calls [OF LoopThrows(2)] obtain new where new:
    "tr' = (tr0 @ [CreateMessageBatch]) @ new" "list_all insideTry new" "SenderClose \<notin> set new"
    "(case err of Thrown s \<Rightarrow> new \<noteq> [] \<and> firstThrow br (tr0 @ [CreateMessageBatch]) new = Some (last new, s)
      | _ \<Rightarrow> firstThrow br (tr0 @ [CreateMessageBatch]) new = None)"
    by auto
  let ?new = "CreateMessageBatch # new"
  have "tr' = tr0 @ ?new" using new(1) by simp
  moreover have "list_all insideTry ?new" "SenderClose \<notin> set ?new" using new(2,3) by simp_all
  moreover have "(case thrown of Some (Thrown s) \<Rightarrow> firstThrow br tr0 ?new = Some (last ?new, s)
          | _ \<Rightarrow> firstThrow br tr0 ?new = None)"
    using new(4) LoopThrows(1,3) by (auto split: js_error.splits)
  ultimately show ?thesis using LoopThrows(4) by blast
next
  case (SendThrows b' tr2 s)
  from queueMessages_loop_calls [OF SendThrows(2)] obtain new where new:
    "tr2 = (tr0 @ [CreateMessageBatch]) @ new" "list_all insideTry new" "SenderClose \<notin> set new"
    "firstThrow br (tr0 @ [CreateMessageBatch]) new = None"
    by auto
  let ?new = "CreateMessageBatch # new @ [SendMessages b']"
  have "tr' = tr0 @ ?new" using new(1) SendThrows(6) by simp
  moreover have "list_all insideTry ?new" "SenderClose \<notin> set ?new" using new(2,3) by simp_all
  moreover have "firstThrow br tr0 ?new = Some (last ?new, s)"
    using new(1,4) SendThrows(1,3) by (simp add: firstThrow_snoc)
  ultimately show ?thesis using SendThrows(4,5) by auto
next
  case (Finished b' tr2)
  from queueMessages_loop_calls [OF Finished(2)] obtain new where new:
    "tr2 = (tr0 @ [CreateMessageBatch]) @ new" "list_all insideTry new" "SenderClose \<notin> set new"
    "firstThrow br (tr0 @ [CreateMessageBatch]) new = None"
    by auto
  let ?init = "CreateMessageBatch # new @ [SendMessages b']"
  let ?new = "?init @ [SenderClose]"
  have a: "tr' = tr0 @ ?new" using new(1) Finished(6) by simp
  have b: "list_all insideTry ?new" "SenderClose \<notin> set ?init" using new(2,3) by simp_all
  have c: "firstThrow br tr0 ?init = None"
    using new(1,4) Finished(1,3) by (simp add: firstThrow_snoc)
  have t: "tr0 @ ?init = tr2 @ [SendMessages b']" using new(1) by simp
  have d: "(case thrown of Some (Thrown s) \<Rightarrow> firstThrow br tr0 ?new = Some (last ?new, s)
          | _ \<Rightarrow> firstThrow br tr0 ?new = None)"
    unfolding firstThrow_snoc [of br tr0 ?init SenderClose] c t Finished(4)
    by (cases "throws br (tr2 @ [SendMessages b']) SenderClose") simp_all
  from a b c d show ?thesis by (intro exI [of _ ?new]) auto
qed

text \<open>The calls of the \<^verbatim>\<open>try\<close> block of the receive path.\<close>

lemma receiveMessages_try_calls:
  assumes "receiveMessages_try rt br tr0 req = (thrown, sr, tr')"
  shows "\<exists>new. tr' = tr0 @ new \<and> new \<noteq> [] \<and> list_all insideTry new
      \<and> (case thrown of
            Some (Thrown s) \<Rightarrow> firstThrow br tr0 new = Some (last new, s)
          | _ \<Rightarrow> firstThrow br tr0 new = None)
      \<and> (ReceiverClose \<in> set new \<longrightarrow>
            (\<exists>init. new = init @ [ReceiverClose] \<and> ReceiverClose \<notin> set init
               \<and> firstThrow br tr0 init = None))
      \<and> (sr \<noteq> None \<longrightarrow> ReceiverClose \<in> set new)"
proof -
  let ?ev = "ReceiveMessages (requestedCount rt (query req ''count'')) maxWaitTimeInMs"
  let ?d = "deliver br tr0 (requestedCount rt (query req ''count''))"
  have inside: "list_all insideTry new \<and> ReceiverClose \<notin> set new"
    if "prefix new (map CompleteMessage ?d)" for new
  proof -
    from that have "set new \<subseteq> CompleteMessage ` set ?d"
      using set_mono_prefix by fastforce
    then show ?thesis by (auto simp: list_all_iff)
  qed
  from assms show ?thesis
  proof (cases rule: receiveMessages_try_cases)
    case (ReceiveThrows s)
    then show ?thesis by simp
  next
    case (LoopThrows err)
    from receiveMessages_loop_calls [OF LoopThrows(2)] obtain new where new:
      "tr' = (tr0 @ [?ev]) @ new" "prefix new (map CompleteMessage ?d)"
      "(case err of Thrown s \<Rightarrow> new \<noteq> [] \<and> firstThrow br (tr0 @ [?ev]) new = Some (last new, s)
        | _ \<Rightarrow> firstThrow br (tr0 @ [?ev]) new = None)"
      by auto
    let ?new = "?ev # new"
    have "tr' = tr0 @ ?new" using new(1) by simp
    moreover have "list_all insideTry ?new" "ReceiverClose \<notin> set ?new"
      using inside [OF new(2)] by simp_all
    moreover have "(case thrown of Some (Thrown s) \<Rightarrow> firstThrow br tr0 ?new = Some (last ?new, s)
          | _ \<Rightarrow> firstThrow br tr0 ?new = None)"
      using new(3) LoopThrows(1,3) by (auto split: js_error.splits)
    ultimately show ?thesis using LoopThrows(4) by blast
  next
    case (Finished msgs tr2)
    from receiveMessages_loop_calls [OF Finished(2)] obtain new where new:
      "tr2 = (tr0 @ [?ev]) @ new" "prefix new (map CompleteMessage ?d)"
      "firstThrow br (tr0 @ [?ev]) new = None"
      by auto
    let ?init = "?ev # new"
    let ?new = "?init @ [ReceiverClose]"
    have a: "tr' = tr0 @ ?new" using new(1) Finished(5) by simp
    have b: "list_all insideTry ?new" "ReceiverClose \<notin> set ?init"
      using inside [OF new(2)] by simp_all
    have c: "firstThrow br tr0 ?init = None"
      using new(3) Finished(1) by simp
    have t: "tr0 @ ?init = tr2" using new(1) by simp
    have d: "(case thrown of Some (Thrown s) \<Rightarrow> firstThrow br tr0 ?new = Some (last ?new, s)
          | _ \<Rightarrow> firstThrow br tr0 ?new = None)"
      unfolding firstThrow_snoc [of br tr0 ?init ReceiverClose] c t Finished(3)
      by (cases "throws br tr2 ReceiverClose") simp_all
    from a b c d show ?thesis by (intro exI [of _ ?new]) auto
  qed
qed

lemma validateQueueRequest_throws:
  "validateQueueRequest e req = Inl err \<Longrightarrow> \<exists>m. err = TypeError m"
  by (cases "body req") (auto simp: validateQueueRequest_def split: sum.splits if_splits)



text \<open>The outcome of the send path once its \<^verbatim>\<open>try\<close> block is entered.\<close>

lemma queueMessages_shape:
  assumes "validateQueueRequest e req = Inr None" and "firstThrow br [] (sendStart e req) = None"
  obtains thrown sr new where
      "queueMessages rt br e req =
        \<lparr> res = (case thrown of Some err \<Rightarrow> Some (createErrorResponse req (String_e err))
                               | None \<Rightarrow> sr),
          uncaught = map_option Thrown (throws br (sendStart e req @ new) ClientClose),
          trace = sendStart e req @ new @ [ClientClose] \<rparr>"
      "new \<noteq> []" "list_all insideTry new"
      "(case thrown of
            Some (Thrown s) \<Rightarrow> firstThrow br (sendStart e req) new = Some (last new, s)
          | _ \<Rightarrow> firstThrow br (sendStart e req) new = None)"
      "SenderClose \<in> set new \<longrightarrow>
            (\<exists>init. new = init @ [SenderClose] \<and> SenderClose \<notin> set init
               \<and> firstThrow br (sendStart e req) init = None)"
      "sr \<noteq> None \<longrightarrow> SenderClose \<in> set new"
proof (cases rule: queueMessages_cases [of e req rt br])
  case (Destructure err)
  with assms show ?thesis by simp
next
  case (Invalid r)
  with assms show ?thesis by simp
next
  case (NewClientThrows s)
  with assms show ?thesis by (simp add: sendStart_def)
next
  case (CreateSenderThrows s)
  with assms show ?thesis by (simp add: sendStart_def)
next
  case (Tried thrown sr tr')
  from queueMessages_try_calls [OF Tried(3)] obtain new where new:
    "tr' = sendStart e req @ new" "new \<noteq> []" "list_all insideTry new"
    "(case thrown of
            Some (Thrown s) \<Rightarrow> firstThrow br (sendStart e req) new = Some (last new, s)
          | _ \<Rightarrow> firstThrow br (sendStart e req) new = None)"
    "(SenderClose \<in> set new \<longrightarrow>
            (\<exists>init. new = init @ [SenderClose] \<and> SenderClose \<notin> set init
               \<and> firstThrow br (sendStart e req) init = None))"
    "(sr \<noteq> None \<longrightarrow> SenderClose \<in> set new)"
    by blast
  from Tried(4) new(1) have "queueMessages rt br e req =
        \<lparr> res = (case thrown of Some err \<Rightarrow> Some (createErrorResponse req (String_e err))
                               | None \<Rightarrow> sr),
          uncaught = map_option Thrown (throws br (sendStart e req @ new) ClientClose),
          trace = sendStart e req @ new @ [ClientClose] \<rparr>"
    by simp
  then show ?thesis using new(2-6) by (rule that)
qed


text \<open>The outcome of the receive path once its \<^verbatim>\<open>try\<close> block is entered.\<close>

lemma receiveMessages_shape:
  assumes "validateReceiveRequest e req = None" and "firstThrow br [] (receiveStart e req) = None"
  obtains thrown sr new where
      "receiveMessages rt br e req =
        \<lparr> res = (case thrown of Some err \<Rightarrow> Some (createErrorResponse req (String_e err))
                               | None \<Rightarrow> sr),
          uncaught = map_option Thrown (throws br (receiveStart e req @ new) ClientClose),
          trace = receiveStart e req @ new @ [ClientClose] \<rparr>"
      "new \<noteq> []" "list_all insideTry new"
      "(case thrown of
            Some (Thrown s) \<Rightarrow> firstThrow br (receiveStart e req) new = Some (last new, s)
          | _ \<Rightarrow> firstThrow br (receiveStart e req) new = None)"
      "ReceiverClose \<in> set new \<longrightarrow>
            (\<exists>init. new = init @ [ReceiverClose] \<and> ReceiverClose \<notin> set init
               \<and> firstThrow br (receiveStart e req) init = None)"
      "sr \<noteq> None \<longrightarrow> ReceiverClose \<in> set new"
proof (cases rule: receiveMessages_cases [of e req rt br])
  case (Invalid r)
  with assms show ?thesis by simp
next
  case (NewClientThrows s)
  with assms show ?thesis by (simp add: receiveStart_def)
next
  case (CreateReceiverThrows s)
  with assms show ?thesis by (simp add: receiveStart_def)
next
  case (Tried thrown sr tr')
  from receiveMessages_try_calls [OF Tried(3)] obtain new where new:
    "tr' = receiveStart e req @ new" "new \<noteq> []" "list_all insideTry new"
    "(case thrown of
            Some (Thrown s) \<Rightarrow> firstThrow br (receiveStart e req) new = Some (last new, s)
          | _ \<Rightarrow> firstThrow br (receiveStart e req) new = None)"
    "(ReceiverClose \<in> set new \<longrightarrow>
            (\<exists>init. new = init @ [ReceiverClose] \<and> ReceiverClose \<notin> set init
               \<and> firstThrow br (receiveStart e req) init = None))"
    "(sr \<noteq> None \<longrightarrow> ReceiverClose \<in> set new)"
    by blast
  from Tried(4) new(1) have "receiveMessages rt br e req =
        \<lparr> res = (case thrown of Some err \<Rightarrow> Some (createErrorResponse req (String_e err))
                               | None \<Rightarrow> sr),
          uncaught = map_option Thrown (throws br (receiveStart e req @ new) ClientClose),
          trace = receiveStart e req @ new @ [ClientClose] \<rparr>"
    by simp
  then show ?thesis using new(2-6) by (rule that)
qed





lemma queueMessages_errors:
  "(\<forall>ev s. firstThrow br [] (trace (queueMessages rt br e req)) = Some (ev, s) \<and> insideTry ev
      \<longrightarrow> res (queueMessages rt br e req) = Some (createErrorResponse req s))
   \<and> (\<forall>err. uncaught (queueMessages rt br e req) = Some err
      \<longrightarrow> (trace (queueMessages rt br e req) = [] \<and> (\<exists>m. err = TypeError m))
        \<or> (\<exists>pre ev s. trace (queueMessages rt br e req) = pre @ [ev] \<and> \<not> insideTry ev
              \<and> throws br pre ev = Some s \<and> err = Thrown s))"
proof (cases rule: queueMessages_cases [of e req rt br])
  case (Destructure err)
  with validateQueueRequest_throws [OF Destructure(1)] show ?thesis by simp
next
  case (Invalid r)
  then show ?thesis by simp
next
  case (NewClientThrows s)
  then show ?thesis by simp
next
  case (CreateSenderThrows s)
  have "sendStart e req = [NewClient (e ''SERVICEBUS_CONNECTION_STRING'')] @ [CreateSender (requestQueueName req)]"
    by (simp add: sendStart_def)
  with CreateSenderThrows show ?thesis
    by (auto simp: sendStart_def)
next
  case (Tried thrown sr tr')
  let ?st = "sendStart e req"
  obtain thrown sr new where
    out: "queueMessages rt br e req =
        \<lparr> res = (case thrown of Some err \<Rightarrow> Some (createErrorResponse req (String_e err))
                               | None \<Rightarrow> sr),
          uncaught = map_option Thrown (throws br (?st @ new) ClientClose),
          trace = ?st @ new @ [ClientClose] \<rparr>"
    and new: "(case thrown of
            Some (Thrown s) \<Rightarrow> firstThrow br ?st new = Some (last new, s)
          | _ \<Rightarrow> firstThrow br ?st new = None)"
    by (rule queueMessages_shape [OF Tried(1,2), of rt]) (rule that)
  have ft: "firstThrow br [] (?st @ new @ [ClientClose]) =
      (case firstThrow br ?st new of Some x \<Rightarrow> Some x
       | None \<Rightarrow> map_option (Pair ClientClose) (throws br (?st @ new) ClientClose))"
    using Tried(2) by (simp add: firstThrow_append split: option.splits)
  have a: "res (queueMessages rt br e req) = Some (createErrorResponse req s)"
    if "firstThrow br [] (trace (queueMessages rt br e req)) = Some (ev, s) \<and> insideTry ev" for ev s
  proof -
    from that out ft have f: "firstThrow br ?st new = Some (ev, s)"
      by (auto split: option.splits)
    with new have "thrown = Some (Thrown s)"
      by (auto split: option.splits js_error.splits)
    with out show ?thesis by simp
  qed
  have b: "\<exists>pre ev s. trace (queueMessages rt br e req) = pre @ [ev] \<and> \<not> insideTry ev
              \<and> throws br pre ev = Some s \<and> err = Thrown s"
    if "uncaught (queueMessages rt br e req) = Some err" for err
  proof -
    from that out obtain s where "throws br (?st @ new) ClientClose = Some s" "err = Thrown s"
      by auto
    moreover have "trace (queueMessages rt br e req) = (?st @ new) @ [ClientClose]"
      using out by simp
    ultimately show ?thesis by (metis insideTry.simps(4))
  qed
  from a b show ?thesis by blast
qed

lemma receiveMessages_errors:
  "(\<forall>ev s. firstThrow br [] (trace (receiveMessages rt br e req)) = Some (ev, s) \<and> insideTry ev
      \<longrightarrow> res (receiveMessages rt br e req) = Some (createErrorResponse req s))
   \<and> (\<forall>err. uncaught (receiveMessages rt br e req) = Some err
      \<longrightarrow> (\<exists>pre ev s. trace (receiveMessages rt br e req) = pre @ [ev] \<and> \<not> insideTry ev
              \<and> throws br pre ev = Some s \<and> err = Thrown s))"
proof (cases rule: receiveMessages_cases [of e req rt br])
  case (Invalid r)
  then show ?thesis by simp
next
  case (NewClientThrows s)
  then show ?thesis by simp
next
  case (CreateReceiverThrows s)
  then show ?thesis by (auto simp: receiveStart_def)
next
  case (Tried thrown sr tr')
  let ?st = "receiveStart e req"
  obtain thrown sr new where
    out: "receiveMessages rt br e req =
        \<lparr> res = (case thrown of Some err \<Rightarrow> Some (createErrorResponse req (String_e err))
                               | None \<Rightarrow> sr),
          uncaught = map_option Thrown (throws br (?st @ new) ClientClose),
          trace = ?st @ new @ [ClientClose] \<rparr>"
    and new: "(case thrown of
            Some (Thrown s) \<Rightarrow> firstThrow br ?st new = Some (last new, s)
          | _ \<Rightarrow> firstThrow br ?st new = None)"
    by (rule receiveMessages_shape [OF Tried(1,2), of rt]) (rule that)
  have ft: "firstThrow br [] (?st @ new @ [ClientClose]) =
      (case firstThrow br ?st new of Some x \<Rightarrow> Some x
       | None \<Rightarrow> map_option (Pair ClientClose) (throws br (?st @ new) ClientClose))"
    using Tried(2) by (simp add: firstThrow_append split: option.splits)
  have a: "res (receiveMessages rt br e req) = Some (createErrorResponse req s)"
    if "firstThrow br [] (trace (receiveMessages rt br e req)) = Some (ev, s) \<and> insideTry ev" for ev s
  proof -
    from that out ft have f: "firstThrow br ?st new = Some (ev, s)"
      by (auto split: option.splits)
    with new have "thrown = Some (Thrown s)"
      by (auto split: option.splits js_error.splits)
    with out show ?thesis by simp
  qed
  have b: "\<exists>pre ev s. trace (receiveMessages rt br e req) = pre @ [ev] \<and> \<not> insideTry ev
              \<and> throws br pre ev = Some s \<and> err = Thrown s"
    if "uncaught (receiveMessages rt br e req) = Some err" for err
  proof -
    from that out obtain s where "throws br (?st @ new) ClientClose = Some s" "err = Thrown s"
      by auto
    moreover have "trace (receiveMessages rt br e req) = (?st @ new) @ [ClientClose]"
      using out by simp
    ultimately show ?thesis by (metis insideTry.simps(4))
  qed
  from a b show ?thesis by blast
qed

section \<open>The send path without failure, and the capacities in order\<close>


lemma firstThrow_member: "firstThrow br pre xs = Some (ev, s) \<Longrightarrow> ev \<in> set xs"
  by (induction xs arbitrary: pre) (auto split: option.splits)







section \<open>The send path: what is sent\<close>




section \<open>The send path: a message too big for a batch\<close>

text \<open>
  Claim C2. Let the loop reach a message \<open>m\<close> (the messages before it are \<open>pre\<close>, the
  loop holds the batch \<open>b\<close> after the calls \<open>tr\<close>), let \<open>m\<close> be rejected by \<open>b\<close>, let the
  flush of \<open>b\<close> and the creation of a new batch return, and let \<open>m\<close> be rejected by the
  new, empty batch. Then the invocation answers 500 with the message
  \<open>Error: Message too big to fit in a batch\<close>; after the new batch is created the only
  call is the close of the client, so the new batch is never sent; the messages sent are
  exactly the messages before \<open>m\<close>; and the batches sent before are still sent, followed
  by \<open>b\<close>.
\<close>

theorem message_too_big:
  assumes start: "sendReady br e req = Some (b0, tr0)"
    and msgs: "requestMessages req = pre @ m # post"
    and reach: "queueMessages_loop br tr0 b0 pre = (Inr b, tr)"
    and full: "\<not> fits br b m"
    and flush: "throws br tr (SendMessages b) = None"
    and fresh: "throws br (tr @ [SendMessages b]) CreateMessageBatch = None"
    and toobig: "\<not> fits br (emptyBatch (capacity br (tr @ [SendMessages b]))) m"
  shows "res (queueMessages rt br e req)
           = Some (createErrorResponse req ''Error: Message too big to fit in a batch'')
         \<and> trace (queueMessages rt br e req) = tr @ [SendMessages b, CreateMessageBatch, ClientClose]
         \<and> sentMessages (trace (queueMessages rt br e req)) = pre
         \<and> sentBatches (trace (queueMessages rt br e req)) = sentBatches tr @ [b]"
proof -
  note s = sendReady_Some [OF start]
  have loop: "queueMessages_loop br tr0 b0 (requestMessages req)
      = (Inl (Error ''Message too big to fit in a batch''), tr @ [SendMessages b, CreateMessageBatch])"
    using reach queueMessages_loop_too_big [OF full flush fresh toobig, of post]
    by (simp add: msgs queueMessages_loop_append del: queueMessages_loop.simps)
  have t: "queueMessages_try rt br (sendStart e req) req (requestMessages req) (requestQueueName req)
      = (Some (Error ''Message too big to fit in a batch''), None,
         tr @ [SendMessages b, CreateMessageBatch])"
    using loop s(3) by (simp add: queueMessages_try_def createMessageBatch_simps s(4,5))
  have out: "queueMessages rt br e req =
      \<lparr> res = Some (createErrorResponse req ''Error: Message too big to fit in a batch''),
        uncaught = map_option Thrown (throws br (tr @ [SendMessages b, CreateMessageBatch]) ClientClose),
        trace = (tr @ [SendMessages b, CreateMessageBatch]) @ [ClientClose] \<rparr>"
  proof (cases rule: queueMessages_cases [of e req rt br])
    case (Destructure err)
    with s(1) show ?thesis by simp
  next
    case (Invalid r)
    with s(1) show ?thesis by simp
  next
    case (NewClientThrows s')
    with s(2) show ?thesis by (simp add: sendStart_def)
  next
    case (CreateSenderThrows s')
    with s(2) show ?thesis by (simp add: sendStart_def)
  next
    case (Tried thrown sr tr')
    with t show ?thesis by simp
  qed
  from queueMessages_loop_sent [OF reach]
  have "sentMessages tr @ items b = pre"
    by (simp add: s(4,5) sentMessages_append sentMessages_sendStart sentMessages_simps items_emptyBatch)
  then have "sentMessages (tr @ [SendMessages b, CreateMessageBatch, ClientClose]) = pre"
    by (simp add: sentMessages_def sentBatches_append)
  then show ?thesis by (simp add: out sentBatches_append)
qed

theorem message_too_big_witness:
  "sendReady (exampleBroker 5 [] neverFails) exampleEnv smallThenBig
     = Some (\<lparr>maxSizeInBytes = 5, items = []\<rparr>,
             [NewClient (Some ''Endpoint=sb://example/''), CreateSender (JStr ''q1''),
              CreateMessageBatch])
   \<and> requestMessages smallThenBig = [JStr ''ab''] @ JStr ''abcdefgh'' # [JStr ''cd'']
   \<and> \<not> fits (exampleBroker 5 [] neverFails) \<lparr>maxSizeInBytes = 5, items = [JStr ''ab'']\<rparr>
         (JStr ''abcdefgh'')
   \<and> \<not> fits (exampleBroker 5 [] neverFails) (emptyBatch 5) (JStr ''abcdefgh'')
   \<and> map_option status (res (queueMessages exampleRuntime (exampleBroker 5 [] neverFails)
        exampleEnv smallThenBig)) = Some 500
   \<and> map_option (message \<circ> res_body) (res (queueMessages exampleRuntime
        (exampleBroker 5 [] neverFails) exampleEnv smallThenBig))
       = Some (Some ''Error: Message too big to fit in a batch'')
   \<and> trace (queueMessages exampleRuntime (exampleBroker 5 [] neverFails) exampleEnv smallThenBig)
       = [NewClient (Some ''Endpoint=sb://example/''), CreateSender (JStr ''q1''),
          CreateMessageBatch, SendMessages \<lparr>maxSizeInBytes = 5, items = [JStr ''ab'']\<rparr>,
          CreateMessageBatch, ClientClose]
   \<and> sentMessages (trace (queueMessages exampleRuntime (exampleBroker 5 [] neverFails)
        exampleEnv smallThenBig)) = [JStr ''ab'']"
proof -
  let ?br = "exampleBroker 5 [] neverFails"
  let ?tr0 = "[NewClient (Some ''Endpoint=sb://example/''), CreateSender (JStr ''q1''),
               CreateMessageBatch]"
  let ?b = "\<lparr>maxSizeInBytes = 5, items = [JStr ''ab'']\<rparr>"
  have msgs: "requestMessages smallThenBig = [JStr ''ab''] @ JStr ''abcdefgh'' # [JStr ''cd'']"
    by (simp add: requestMessages_def smallThenBig_def postRequest_def sendBody_def)
  have reach: "queueMessages_loop ?br ?tr0 \<lparr>maxSizeInBytes = 5, items = []\<rparr> [JStr ''ab'']
      = (Inr ?b, ?tr0)"
    by (simp add: tryAddMessage_def batchSize_def exampleBroker_simps)
  have full: "\<not> fits ?br ?b (JStr ''abcdefgh'')"
    by (simp add: fits_def batchSize_def exampleBroker_simps)
  have flush: "throws ?br ?tr0 (SendMessages ?b) = None"
    and fresh: "throws ?br (?tr0 @ [SendMessages ?b]) CreateMessageBatch = None"
    by (simp_all add: exampleBroker_simps)
  have toobig: "\<not> fits ?br (emptyBatch (capacity ?br (?tr0 @ [SendMessages ?b]))) (JStr ''abcdefgh'')"
    and toobig': "\<not> fits ?br (emptyBatch 5) (JStr ''abcdefgh'')"
    by (simp_all add: fits_def batchSize_def exampleBroker_simps emptyBatch_def)
  from message_too_big [OF smallThenBig_start msgs reach full flush fresh toobig, of exampleRuntime]
    smallThenBig_start msgs full toobig'
  show ?thesis by (simp add: createErrorResponse_def sentMessages_def)
qed

section \<open>The send path: empty batches\<close>

text \<open>From a first message that the first batch accepts, no empty batch is sent.\<close>

lemma queueMessages_try_nonempty:
  assumes "queueMessages_try rt br tr0 req (m # ms) q = (thrown, sr, tr')"
    and "sentBatches tr0 = []" and "fits br (emptyBatch (capacity br tr0)) m"
  shows "list_all (\<lambda>x. items x \<noteq> []) (sentBatches tr')"
proof -
  let ?tr1 = "tr0 @ [CreateMessageBatch]" and ?b1 = "added (emptyBatch (capacity br tr0)) m"
  have loop: "list_all (\<lambda>x. items x \<noteq> []) (sentBatches tr2) \<and> (\<forall>b'. r = Inr b' \<longrightarrow> items b' \<noteq> [])"
    if "queueMessages_loop br ?tr1 (emptyBatch (capacity br tr0)) (m # ms) = (r, tr2)" for r tr2
  proof -
    from that assms(3) have "queueMessages_loop br ?tr1 ?b1 ms = (r, tr2)"
      by (simp add: queueMessages_loop_accept del: queueMessages_loop.simps)
    from queueMessages_loop_nonempty [OF this] assms(2) show ?thesis
      by (simp add: items_added sentBatches_append)
  qed
  from assms(1) show ?thesis
  proof (cases rule: queueMessages_try_cases)
    case (CreateThrows s)
    then show ?thesis using assms(2) by (simp add: sentBatches_append)
  next
    case (LoopThrows err)
    with loop [OF LoopThrows(2)] show ?thesis by simp
  next
    case (SendThrows b' tr2 s)
    with loop [OF SendThrows(2)] show ?thesis by (simp add: sentBatches_append)
  next
    case (Finished b' tr2)
    with loop [OF Finished(2)] show ?thesis by (simp add: sentBatches_append)
  qed
qed

text \<open>When the loop ends normally, the batch it holds is sent next, whatever it holds.\<close>

lemma queueMessages_final_send:
  assumes ready: "sendReady br e req = Some (b0, tr0)"
    and loop: "queueMessages_loop br tr0 b0 (requestMessages req) = (Inr b', tr2)"
  shows "sentBatches (trace (queueMessages rt br e req)) = sentBatches tr2 @ [b']
       \<and> (trace (queueMessages rt br e req) = tr2 @ [SendMessages b', ClientClose]
          \<or> trace (queueMessages rt br e req) = tr2 @ [SendMessages b', SenderClose, ClientClose])"
proof -
  note s = sendReady_Some [OF ready]
  show ?thesis
  proof (cases rule: queueMessages_cases [of e req rt br])
    case (Destructure err)
    with s(1) show ?thesis by simp
  next
    case (Invalid r)
    with s(1) show ?thesis by simp
  next
    case (NewClientThrows s')
    with s(2) show ?thesis by (simp add: sendStart_def)
  next
    case (CreateSenderThrows s')
    with s(2) show ?thesis by (simp add: sendStart_def)
  next
    case (Tried thrown sr tr')
    from Tried(3) loop s(3) have "tr' = tr2 @ [SendMessages b'] \<or> tr' = tr2 @ [SendMessages b', SenderClose]"
      by (auto simp: queueMessages_try_def createMessageBatch_simps call_def s(4) [symmetric]
          s(5) [symmetric] split: option.splits)
    with Tried(4) show ?thesis by (auto simp: sentBatches_append)
  qed
qed

text \<open>
  Claim C3, as amended. The batch held when the input is exhausted is sent without a test:
  whenever the loop over the messages of a valid request ends normally, the next call is
  \<^verbatim>\<open>sendMessages\<close> with the batch the loop holds, whatever it holds, and it is the last
  batch sent (after it only the sender and the client are closed). So for an empty
  messages array, once the first batch is created, one \<^verbatim>\<open>sendMessages\<close> call is made,
  with that batch, which is empty. For a messages array whose first message is accepted
  by the first batch, no batch passed to \<^verbatim>\<open>sendMessages\<close> is empty.
\<close>

theorem final_batch_sent_unconditionally:
  "(\<forall>b0 tr0 b' tr2. sendReady br e req = Some (b0, tr0)
         \<and> queueMessages_loop br tr0 b0 (requestMessages req) = (Inr b', tr2)
       \<longrightarrow> sentBatches (trace (queueMessages rt br e req)) = sentBatches tr2 @ [b']
         \<and> (trace (queueMessages rt br e req) = tr2 @ [SendMessages b', ClientClose]
            \<or> trace (queueMessages rt br e req) = tr2 @ [SendMessages b', SenderClose, ClientClose]))
   \<and> (\<forall>b0 tr0. sendReady br e req = Some (b0, tr0) \<and> requestMessages req = []
       \<longrightarrow> items b0 = [] \<and> sentBatches (trace (queueMessages rt br e req)) = [b0])
   \<and> (\<forall>m ms. requestMessages req = m # ms
         \<and> fits br (emptyBatch (capacity br (sendStart e req))) m
       \<longrightarrow> list_all (\<lambda>b. items b \<noteq> []) (sentBatches (trace (queueMessages rt br e req))))"
proof (intro conjI allI impI)
  fix b0 tr0 b' tr2
  assume "sendReady br e req = Some (b0, tr0)
         \<and> queueMessages_loop br tr0 b0 (requestMessages req) = (Inr b', tr2)"
  then show "sentBatches (trace (queueMessages rt br e req)) = sentBatches tr2 @ [b']"
    and "trace (queueMessages rt br e req) = tr2 @ [SendMessages b', ClientClose]
            \<or> trace (queueMessages rt br e req) = tr2 @ [SendMessages b', SenderClose, ClientClose]"
    using queueMessages_final_send [of br e req b0 tr0 b' tr2 rt] by blast+
next
  fix b0 tr0
  assume a: "sendReady br e req = Some (b0, tr0) \<and> requestMessages req = []"
  note s = sendReady_Some [of br e req b0 tr0]
  from a s show "items b0 = []" by (simp add: items_emptyBatch)
  show "sentBatches (trace (queueMessages rt br e req)) = [b0]"
  proof (cases rule: queueMessages_cases [of e req rt br])
    case (Destructure err)
    with a s(1) show ?thesis by simp
  next
    case (Invalid r)
    with a s(1) show ?thesis by simp
  next
    case (NewClientThrows s')
    with a s(2) show ?thesis by (simp add: sendStart_def)
  next
    case (CreateSenderThrows s')
    with a s(2) show ?thesis by (simp add: sendStart_def)
  next
    case (Tried thrown sr tr')
    from Tried(3) a s(3,4) have "sentBatches tr' = [b0]"
      by (auto simp: queueMessages_try_def createMessageBatch_simps call_def
          sentBatches_append sentMessages_sendStart split: option.splits)
    with Tried(4) show ?thesis by (simp add: sentBatches_append)
  qed
next
  fix m ms
  assume a: "requestMessages req = m # ms \<and> fits br (emptyBatch (capacity br (sendStart e req))) m"
  show "list_all (\<lambda>b. items b \<noteq> []) (sentBatches (trace (queueMessages rt br e req)))"
  proof (cases rule: queueMessages_cases [of e req rt br])
    case (Destructure err)
    then show ?thesis by simp
  next
    case (Invalid r)
    then show ?thesis by simp
  next
    case (NewClientThrows s')
    then show ?thesis by simp
  next
    case (CreateSenderThrows s')
    then show ?thesis by (simp add: sentMessages_sendStart)
  next
    case (Tried thrown sr tr')
    from Tried(3) a have "list_all (\<lambda>x. items x \<noteq> []) (sentBatches tr')"
      using queueMessages_try_nonempty [OF _ sentMessages_sendStart(2)] by simp
    with Tried(4) show ?thesis by (simp add: sentBatches_append)
  qed
qed

theorem final_batch_sent_unconditionally_witness:
  "sendReady (exampleBroker 5 [] neverFails) exampleEnv threeMessages
     = Some (\<lparr>maxSizeInBytes = 5, items = []\<rparr>,
             [theClient, CreateSender (JStr ''q1''), CreateMessageBatch])
   \<and> queueMessages_loop (exampleBroker 5 [] neverFails)
        [theClient, CreateSender (JStr ''q1''), CreateMessageBatch]
        \<lparr>maxSizeInBytes = 5, items = []\<rparr> (requestMessages threeMessages)
      = (Inr \<lparr>maxSizeInBytes = 5, items = [JStr ''efg'']\<rparr>,
         [theClient, CreateSender (JStr ''q1''), CreateMessageBatch, SendMessages firstBatch,
          CreateMessageBatch])
   \<and> sentBatches (trace (queueMessages exampleRuntime (exampleBroker 5 [] neverFails)
        exampleEnv threeMessages))
      = [firstBatch, \<lparr>maxSizeInBytes = 5, items = [JStr ''efg'']\<rparr>]
   \<and> sendReady (exampleBroker 5 [] neverFails) exampleEnv noMessages
     = Some (\<lparr>maxSizeInBytes = 5, items = []\<rparr>,
             [theClient, CreateSender (JStr ''q1''), CreateMessageBatch])
   \<and> requestMessages noMessages = []
   \<and> sentBatches (trace (queueMessages exampleRuntime (exampleBroker 5 [] neverFails)
        exampleEnv noMessages)) = [\<lparr>maxSizeInBytes = 5, items = []\<rparr>]
   \<and> requestMessages threeMessages = JStr ''ab'' # [JStr ''cd'', JStr ''efg'']
   \<and> fits (exampleBroker 5 [] neverFails)
        (emptyBatch (capacity (exampleBroker 5 [] neverFails) (sendStart exampleEnv threeMessages)))
        (JStr ''ab'')
   \<and> list_all (\<lambda>b. items b \<noteq> []) (sentBatches (trace (queueMessages exampleRuntime
        (exampleBroker 5 [] neverFails) exampleEnv threeMessages)))"
proof -
  let ?br = "exampleBroker 5 [] neverFails"
  let ?tr0 = "[theClient, CreateSender (JStr ''q1''), CreateMessageBatch]"
  let ?b0 = "\<lparr>maxSizeInBytes = 5, items = []\<rparr>"
  let ?last = "\<lparr>maxSizeInBytes = 5, items = [JStr ''efg'']\<rparr>"
  have start3: "sendReady ?br exampleEnv threeMessages = Some (?b0, ?tr0)"
    by (simp add: sendReady_def threeMessages_def validateQueueRequest_def postRequest_def
      sendBody_def envMissing_def exampleEnv_simps sendStart_def requestQueueName_def
      exampleBroker_simps emptyBatch_def theClient_def)
  have start: "sendReady ?br exampleEnv noMessages = Some (?b0, ?tr0)"
    by (simp add: sendReady_def noMessages_def validateQueueRequest_def postRequest_def
      sendBody_def envMissing_def exampleEnv_simps sendStart_def requestQueueName_def
      exampleBroker_simps emptyBatch_def theClient_def)
  have none: "requestMessages noMessages = []"
    by (simp add: requestMessages_def noMessages_def postRequest_def sendBody_def)
  have three: "requestMessages threeMessages = JStr ''ab'' # [JStr ''cd'', JStr ''efg'']"
    by (simp add: requestMessages_def threeMessages_def postRequest_def sendBody_def)
  have loop: "queueMessages_loop ?br ?tr0 ?b0 (requestMessages threeMessages)
      = (Inr ?last, ?tr0 @ [SendMessages firstBatch, CreateMessageBatch])"
    by (simp add: three tryAddMessage_def batchSize_def exampleBroker_simps call_def
        createMessageBatch_def emptyBatch_def firstBatch_def)
  have fit: "fits ?br (emptyBatch (capacity ?br (sendStart exampleEnv threeMessages))) (JStr ''ab'')"
    by (simp add: fits_def batchSize_def exampleBroker_simps emptyBatch_def)
  from final_batch_sent_unconditionally [of ?br exampleEnv threeMessages exampleRuntime] start3 loop
  have "sentBatches (trace (queueMessages exampleRuntime ?br exampleEnv threeMessages))
      = sentBatches (?tr0 @ [SendMessages firstBatch, CreateMessageBatch]) @ [?last]"
    by blast
  then have l: "sentBatches (trace (queueMessages exampleRuntime ?br exampleEnv threeMessages))
      = [firstBatch, ?last]"
    by (simp add: theClient_def)
  from final_batch_sent_unconditionally [of ?br exampleEnv noMessages exampleRuntime] start none
  have a: "sentBatches (trace (queueMessages exampleRuntime ?br exampleEnv noMessages)) = [?b0]"
    by blast
  from final_batch_sent_unconditionally [of ?br exampleEnv threeMessages exampleRuntime] three fit
  have b: "list_all (\<lambda>b. items b \<noteq> []) (sentBatches (trace (queueMessages exampleRuntime
        ?br exampleEnv threeMessages)))"
    by blast
  from start3 loop l start none a three fit b show ?thesis by simp
qed

text \<open>
  Claim C3 as the spec states it fails: for an empty messages array the invocation
  answers 200 after one \<^verbatim>\<open>sendMessages\<close> call, whose batch is empty.
\<close>

theorem empty_array_empty_batch_counterexample:
  "requestMessages noMessages = []
   \<and> map_option status (res (queueMessages exampleRuntime (exampleBroker 5 [] neverFails)
        exampleEnv noMessages)) = Some 200
   \<and> sentBatches (trace (queueMessages exampleRuntime (exampleBroker 5 [] neverFails)
        exampleEnv noMessages)) = [\<lparr>maxSizeInBytes = 5, items = []\<rparr>]"
  by (simp add: noMessages_run)
    (simp add: requestMessages_def noMessages_def postRequest_def sendBody_def)

section \<open>The receive path: what is acknowledged and what is returned\<close>






section \<open>The receive path: the requested count\<close>

lemma receive_events_of_loop:
  assumes "receiveMessages_loop br tr acc ms = (r, tr')" and "ReceiveMessages n w \<in> set tr'"
  shows "ReceiveMessages n w \<in> set tr"
proof -
  from receiveMessages_loop_calls [OF assms(1)] obtain new where
    new: "tr' = tr @ new" "prefix new (map CompleteMessage ms)"
    by blast
  from new(2) have "set new \<subseteq> CompleteMessage ` set ms"
    using set_mono_prefix by fastforce
  with assms(2) new(1) show ?thesis by auto
qed

lemma receiveMessages_try_receive_call:
  assumes "receiveMessages_try rt br tr0 req = (x, y, tr')"
    and "ReceiveMessages n w \<in> set tr'" and "ReceiveMessages n w \<notin> set tr0"
  shows "n = requestedCount rt (query req ''count'') \<and> w = 20000"
  using assms
  by (auto simp: receiveMessages_try_def Let_def call_def maxWaitTimeInMs_def
      split: option.splits prod.splits sum.splits dest!: receive_events_of_loop)

lemma receiveMessages_receive_call:
  assumes "ReceiveMessages n w \<in> set (trace (receiveMessages rt br e req))"
  shows "n = requestedCount rt (query req ''count'') \<and> w = 20000"
proof (cases "validateReceiveRequest e req")
  case (Some r)
  with assms show ?thesis by (simp add: receiveMessages_def)
next
  case None
  with assms show ?thesis
    by (auto simp: receiveMessages_def catch_finally_def call_def
        split: option.splits prod.splits dest: receiveMessages_try_receive_call)
qed

text \<open>
  Claim C5, as amended. The count requested from the broker is 1 when the \<open>count\<close> query
  parameter is absent or the empty string. Every other value goes through \<open>Number\<close> and is
  passed on as it comes out, also when it is NaN. Whenever the receive path calls the
  broker's receive operation, it passes this count and the wait time of 20000 ms.
\<close>

theorem count_passed_to_broker:
  "(paramMissing count \<longrightarrow> requestedCount rt count = Fin 1)
   \<and> (count = Some c \<and> c \<noteq> [] \<longrightarrow> requestedCount rt count = Number rt c)
   \<and> (\<forall>n w. ReceiveMessages n w \<in> set (trace (receiveMessages rt br e req))
         \<longrightarrow> n = requestedCount rt (query req ''count'') \<and> w = 20000)"
proof (intro conjI impI allI)
  assume "paramMissing count"
  then show "requestedCount rt count = Fin 1"
    by (auto simp: paramMissing_def requestedCount_def split: option.splits)
next
  assume "count = Some c \<and> c \<noteq> []"
  then show "requestedCount rt count = Number rt c"
    by (simp add: requestedCount_def)
next
  fix n w
  assume "ReceiveMessages n w \<in> set (trace (receiveMessages rt br e req))"
  then show "n = requestedCount rt (query req ''count'')" and "w = 20000"
    using receiveMessages_receive_call by blast+
qed

theorem count_passed_to_broker_witness:
  "paramMissing None \<and> requestedCount exampleRuntime None = Fin 1
   \<and> requestedCount exampleRuntime (Some ''2'') = Fin 2
   \<and> ReceiveMessages (Fin 2) 20000 \<in> set (trace (receiveMessages exampleRuntime
        (exampleBroker 5 [] neverFails) exampleEnv (countRequest ''2'')))
   \<and> requestedCount exampleRuntime (query (countRequest ''2'') ''count'') = Fin 2"
proof -
  have ev: "ReceiveMessages (Fin 2) 20000 \<in> set (trace (receiveMessages exampleRuntime
        (exampleBroker 5 [] neverFails) exampleEnv (countRequest ''2'')))"
    by (simp add: countRequest_def getRequest_def exampleRuntime_def StringToNumber_2
      requestedCount_def receiveMessages_def validateReceiveRequest_def envMissing_def
      exampleEnv_simps paramMissing_def call_def exampleBroker_def neverFails_def
      catch_finally_def receiveMessages_try_def maxWaitTimeInMs_def exampleDeliver_def)
  have p: "paramMissing None" by (simp add: paramMissing_def)
  from count_passed_to_broker [of None exampleRuntime "''2''" "exampleBroker 5 [] neverFails" exampleEnv "countRequest ''2''"] p
  have a: "requestedCount exampleRuntime None = Fin 1" by blast
  from count_passed_to_broker [of "Some ''2''" exampleRuntime "''2''" "exampleBroker 5 [] neverFails" exampleEnv "countRequest ''2''"]
  have b: "requestedCount exampleRuntime (Some ''2'') = Number exampleRuntime ''2''"
    and c: "Fin 2 = requestedCount exampleRuntime (query (countRequest ''2'') ''count'')"
    using ev by auto
  show ?thesis using p a b c ev by (simp add: exampleRuntime_def StringToNumber_2)
qed

text \<open>
  Claim C5 as the spec states it fails: \<open>abc\<close> does not coerce to a number, and the count
  requested from the broker for it is NaN, not 1.
\<close>

theorem count_abc_counterexample:
  "query (countRequest ''abc'') ''count'' = Some ''abc''
   \<and> Number exampleRuntime ''abc'' = NaN
   \<and> requestedCount exampleRuntime (query (countRequest ''abc'') ''count'') \<noteq> Fin 1
   \<and> take 3 (trace (receiveMessages exampleRuntime (exampleBroker 5 [] neverFails) exampleEnv
                (countRequest ''abc'')))
       = [NewClient (Some ''Endpoint=sb://example/''), CreateReceiver (Some ''q1''),
          ReceiveMessages NaN 20000]"
  by (simp add: countRequest_def getRequest_def exampleRuntime_def StringToNumber_abc
      requestedCount_def receiveMessages_def validateReceiveRequest_def envMissing_def
      exampleEnv_simps paramMissing_def call_def exampleBroker_def neverFails_def
      catch_finally_def receiveMessages_try_def maxWaitTimeInMs_def exampleDeliver_def)

section \<open>Validation failures\<close>

text \<open>
  Claim C6, as amended. On the send path, for a request whose body can be destructured
  (it is neither undefined nor null): a missing connection string answers 500; a
  connection string that is set and a missing or empty (falsy) queueName answer 400. On
  the receive path: a missing connection string answers 500; a connection string that is
  set and a missing or empty queueName answer 400. In each case no broker call is made
  and no error leaves the handler. (Each path reads its own environment variable.)
\<close>

theorem validation_failure_responses:
  "(envMissing e ''SERVICEBUS_CONNECTION_STRING'' \<and> body req \<noteq> JUndefined \<and> body req \<noteq> JNull
      \<longrightarrow> (\<exists>r. queueMessages rt br e req = \<lparr> res = Some r, uncaught = None, trace = [] \<rparr>
               \<and> status r = 500))
   \<and> (\<not> envMissing e ''SERVICEBUS_CONNECTION_STRING''
        \<and> getProp (body req) ''queueName'' = Inr q \<and> \<not> truthy q
      \<longrightarrow> (\<exists>r. queueMessages rt br e req = \<lparr> res = Some r, uncaught = None, trace = [] \<rparr>
               \<and> status r = 400))
   \<and> (envMissing e ''SERVICE_BUS_CONNECTION_STRING''
      \<longrightarrow> (\<exists>r. receiveMessages rt br e req = \<lparr> res = Some r, uncaught = None, trace = [] \<rparr>
               \<and> status r = 500))
   \<and> (\<not> envMissing e ''SERVICE_BUS_CONNECTION_STRING'' \<and> paramMissing (query req ''queueName'')
      \<longrightarrow> (\<exists>r. receiveMessages rt br e req = \<lparr> res = Some r, uncaught = None, trace = [] \<rparr>
               \<and> status r = 400))"
proof (intro conjI impI)
  assume a: "envMissing e ''SERVICEBUS_CONNECTION_STRING'' \<and> body req \<noteq> JUndefined \<and> body req \<noteq> JNull"
  then obtain q' ms where "getProp (body req) ''queueName'' = Inr q'"
    "getProp (body req) ''messages'' = Inr ms"
    by (cases "body req") auto
  with a show "\<exists>r. queueMessages rt br e req = \<lparr> res = Some r, uncaught = None, trace = [] \<rparr>
               \<and> status r = 500"
    by (simp add: queueMessages_def validateQueueRequest_def createErrorResponse_def)
next
  assume a: "\<not> envMissing e ''SERVICEBUS_CONNECTION_STRING''
        \<and> getProp (body req) ''queueName'' = Inr q \<and> \<not> truthy q"
  then have "body req \<noteq> JUndefined" "body req \<noteq> JNull" by auto
  then obtain ms where "getProp (body req) ''messages'' = Inr ms"
    by (cases "body req") auto
  with a show "\<exists>r. queueMessages rt br e req = \<lparr> res = Some r, uncaught = None, trace = [] \<rparr>
               \<and> status r = 400"
    by (simp add: queueMessages_def validateQueueRequest_def createBadRequestResponse_def)
next
  assume "envMissing e ''SERVICE_BUS_CONNECTION_STRING''"
  then show "\<exists>r. receiveMessages rt br e req = \<lparr> res = Some r, uncaught = None, trace = [] \<rparr>
               \<and> status r = 500"
    by (simp add: receiveMessages_def validateReceiveRequest_def createErrorResponse_def)
next
  assume "\<not> envMissing e ''SERVICE_BUS_CONNECTION_STRING'' \<and> paramMissing (query req ''queueName'')"
  then show "\<exists>r. receiveMessages rt br e req = \<lparr> res = Some r, uncaught = None, trace = [] \<rparr>
               \<and> status r = 400"
    by (simp add: receiveMessages_def validateReceiveRequest_def createBadRequestResponse_def)
qed

theorem validation_failure_responses_witness:
  "envMissing Map.empty ''SERVICEBUS_CONNECTION_STRING''
   \<and> map_option status (res (queueMessages exampleRuntime (exampleBroker 5 [] neverFails)
        Map.empty (postRequest (sendBody ''q1'' [])))) = Some 500
   \<and> \<not> envMissing exampleEnv ''SERVICEBUS_CONNECTION_STRING''
   \<and> getProp (body (postRequest (JObj [(''queueName'', JStr [])]))) ''queueName'' = Inr (JStr [])
   \<and> map_option status (res (queueMessages exampleRuntime (exampleBroker 5 [] neverFails)
        exampleEnv (postRequest (JObj [(''queueName'', JStr [])])))) = Some 400
   \<and> envMissing Map.empty ''SERVICE_BUS_CONNECTION_STRING''
   \<and> map_option status (res (receiveMessages exampleRuntime (exampleBroker 5 [] neverFails)
        Map.empty (getRequest [(''queueName'', ''q1'')]))) = Some 500
   \<and> \<not> envMissing exampleEnv ''SERVICE_BUS_CONNECTION_STRING''
   \<and> paramMissing (query (getRequest []) ''queueName'')
   \<and> map_option status (res (receiveMessages exampleRuntime (exampleBroker 5 [] neverFails)
        exampleEnv (getRequest []))) = Some 400"
proof -
  let ?br = "exampleBroker 5 [] neverFails"
  have h1: "envMissing Map.empty ''SERVICEBUS_CONNECTION_STRING''
      \<and> body (postRequest (sendBody ''q1'' [])) \<noteq> JUndefined
      \<and> body (postRequest (sendBody ''q1'' [])) \<noteq> JNull"
    by (simp add: envMissing_def postRequest_def sendBody_def)
  have h2: "\<not> envMissing exampleEnv ''SERVICEBUS_CONNECTION_STRING''
      \<and> getProp (body (postRequest (JObj [(''queueName'', JStr [])]))) ''queueName'' = Inr (JStr [])
      \<and> \<not> truthy (JStr [])"
    by (simp add: envMissing_def exampleEnv_simps postRequest_def)
  have h3: "envMissing Map.empty ''SERVICE_BUS_CONNECTION_STRING''"
    by (simp add: envMissing_def)
  have h4: "\<not> envMissing exampleEnv ''SERVICE_BUS_CONNECTION_STRING''
      \<and> paramMissing (query (getRequest []) ''queueName'')"
    by (simp add: envMissing_def exampleEnv_simps paramMissing_def getRequest_def)
  from h1 validation_failure_responses [where e = Map.empty and req = "postRequest (sendBody ''q1'' [])" and q = JNull and rt = exampleRuntime and br = ?br]
  have c1: "map_option status (res (queueMessages exampleRuntime ?br
        Map.empty (postRequest (sendBody ''q1'' [])))) = Some 500" by auto
  from h2 validation_failure_responses [where e = exampleEnv and req = "postRequest (JObj [(''queueName'', JStr [])])" and q = "JStr []" and rt = exampleRuntime and br = ?br]
  have c2: "map_option status (res (queueMessages exampleRuntime ?br
        exampleEnv (postRequest (JObj [(''queueName'', JStr [])])))) = Some 400" by auto
  from h3 validation_failure_responses [where e = Map.empty and req = "getRequest [(''queueName'', ''q1'')]" and q = JNull and rt = exampleRuntime and br = ?br]
  have c3: "map_option status (res (receiveMessages exampleRuntime ?br
        Map.empty (getRequest [(''queueName'', ''q1'')]))) = Some 500" by auto
  from h4 validation_failure_responses [where e = exampleEnv and req = "getRequest []" and q = JNull and rt = exampleRuntime and br = ?br]
  have c4: "map_option status (res (receiveMessages exampleRuntime ?br
        exampleEnv (getRequest []))) = Some 400" by auto
  from h1 h2 h3 h4 c1 c2 c3 c4 show ?thesis by blast
qed

text \<open>
  Claim C6 as the spec states it fails: a missing queueName does not always answer 400.
  With the connection string missing as well, the answer is 500.
\<close>

theorem missing_queueName_counterexample:
  "paramMissing (query (getRequest []) ''queueName'')
   \<and> map_option status (res (receiveMessages exampleRuntime (exampleBroker 5 [] neverFails)
        Map.empty (getRequest []))) = Some 500
   \<and> (500::nat) \<noteq> 400"
  by (simp add: paramMissing_def getRequest_def receiveMessages_def validateReceiveRequest_def
      envMissing_def createErrorResponse_def)

section \<open>The entry point: methods other than GET and POST\<close>

text \<open>
  Claim C7, as amended. For every method other than GET and POST (null included) the entry
  point makes no broker call and answers 405 with the message \<open>Method '\<close>, the method,
  \<open> not allowed!\<close> (the apostrophe before the method is the only one: none closes the
  message), and the echo of the request's body, headers and method.
\<close>

theorem httpTrigger_other_method:
  assumes "method req \<noteq> Some ''GET''" and "method req \<noteq> Some ''POST''"
  shows "httpTrigger rt br e req =
           \<lparr> res = Some \<lparr> status = 405,
                          res_headers = [(''Content-Type'', ''application/json'')],
                          res_body = \<lparr> body_status = 405,
                            message = Some (''Method '' @ [CHR 0x27] @ methodString (method req)
                                            @ '' not allowed!''),
                            messages = None,
                            request = EchoBody (body req) (headers req) (method req) \<rparr> \<rparr>,
              uncaught = None, trace = [] \<rparr>"
  using assms by (simp add: httpTrigger_def methodNotAllowed_def defaultResponseHeaders_def)

theorem httpTrigger_other_method_witness:
  "method putRequest \<noteq> Some ''GET'' \<and> method putRequest \<noteq> Some ''POST'' \<and>
   map_option (message \<circ> res_body)
     (res (httpTrigger exampleRuntime (exampleBroker 5 [] neverFails) exampleEnv putRequest))
     = Some (Some ''Method 'PUT not allowed!'')"
proof -
  have g: "method putRequest \<noteq> Some ''GET''" and p: "method putRequest \<noteq> Some ''POST''"
    by (simp_all add: putRequest_def)
  show ?thesis
    using g p httpTrigger_other_method [OF g p, of exampleRuntime "exampleBroker 5 [] neverFails" exampleEnv]
    by (simp add: putRequest_def methodString_def)
qed

text \<open>
  Claim C7 as the spec states it fails: for PUT the spec gives the message
  \<open>Method 'PUT not allowed!'\<close>, closed by an apostrophe, and the code's message has no
  apostrophe at its end.
\<close>

theorem httpTrigger_PUT_counterexample:
  "map_option (message \<circ> res_body)
     (res (httpTrigger exampleRuntime (exampleBroker 5 [] neverFails) exampleEnv putRequest))
     = Some (Some ''Method 'PUT not allowed!'')
   \<and> ''Method 'PUT not allowed!'' \<noteq> ''Method 'PUT not allowed!'' @ [CHR 0x27]"
  by (simp add: httpTrigger_def putRequest_def methodNotAllowed_def methodString_def)

section \<open>Closing the sender, the receiver and the client\<close>




section \<open>Errors caught and errors not caught\<close>

text \<open>What is thrown outside the \<^verbatim>\<open>try\<close> block, or by the close of the client, leaves
  the handler.\<close>

lemma queueMessages_propagates:
  "(body req = JUndefined \<or> body req = JNull
      \<longrightarrow> (\<exists>m. queueMessages rt br e req
                 = \<lparr> res = None, uncaught = Some (TypeError m), trace = [] \<rparr>))
   \<and> (\<forall>s. validateQueueRequest e req = Inr None
         \<and> throws br [] (NewClient (e ''SERVICEBUS_CONNECTION_STRING'')) = Some s
      \<longrightarrow> queueMessages rt br e req
            = \<lparr> res = None, uncaught = Some (Thrown s),
                trace = [NewClient (e ''SERVICEBUS_CONNECTION_STRING'')] \<rparr>)
   \<and> (\<forall>s. validateQueueRequest e req = Inr None
         \<and> throws br [] (NewClient (e ''SERVICEBUS_CONNECTION_STRING'')) = None
         \<and> throws br [NewClient (e ''SERVICEBUS_CONNECTION_STRING'')]
              (CreateSender (requestQueueName req)) = Some s
      \<longrightarrow> queueMessages rt br e req
            = \<lparr> res = None, uncaught = Some (Thrown s), trace = sendStart e req \<rparr>)
   \<and> (\<forall>pre s. trace (queueMessages rt br e req) = pre @ [ClientClose]
         \<and> throws br pre ClientClose = Some s
      \<longrightarrow> uncaught (queueMessages rt br e req) = Some (Thrown s))"
proof (intro conjI allI impI)
  assume "body req = JUndefined \<or> body req = JNull"
  then show "\<exists>m. queueMessages rt br e req
                 = \<lparr> res = None, uncaught = Some (TypeError m), trace = [] \<rparr>"
    by (auto simp: queueMessages_def validateQueueRequest_def)
next
  fix s
  assume a: "validateQueueRequest e req = Inr None
         \<and> throws br [] (NewClient (e ''SERVICEBUS_CONNECTION_STRING'')) = Some s"
  show "queueMessages rt br e req
            = \<lparr> res = None, uncaught = Some (Thrown s),
                trace = [NewClient (e ''SERVICEBUS_CONNECTION_STRING'')] \<rparr>"
    using a by (cases rule: queueMessages_cases [of e req rt br]) (simp_all add: sendStart_def)
next
  fix s
  assume a: "validateQueueRequest e req = Inr None
         \<and> throws br [] (NewClient (e ''SERVICEBUS_CONNECTION_STRING'')) = None
         \<and> throws br [NewClient (e ''SERVICEBUS_CONNECTION_STRING'')]
              (CreateSender (requestQueueName req)) = Some s"
  show "queueMessages rt br e req
            = \<lparr> res = None, uncaught = Some (Thrown s), trace = sendStart e req \<rparr>"
    using a by (cases rule: queueMessages_cases [of e req rt br]) (simp_all add: sendStart_def)
next
  fix pre s
  assume a: "trace (queueMessages rt br e req) = pre @ [ClientClose]
         \<and> throws br pre ClientClose = Some s"
  show "uncaught (queueMessages rt br e req) = Some (Thrown s)"
    using a by (cases rule: queueMessages_cases [of e req rt br]) (auto simp: sendStart_def)
qed

lemma receiveMessages_propagates:
  "(\<forall>s. validateReceiveRequest e req = None
         \<and> throws br [] (NewClient (e ''SERVICE_BUS_CONNECTION_STRING'')) = Some s
      \<longrightarrow> receiveMessages rt br e req
            = \<lparr> res = None, uncaught = Some (Thrown s),
                trace = [NewClient (e ''SERVICE_BUS_CONNECTION_STRING'')] \<rparr>)
   \<and> (\<forall>s. validateReceiveRequest e req = None
         \<and> throws br [] (NewClient (e ''SERVICE_BUS_CONNECTION_STRING'')) = None
         \<and> throws br [NewClient (e ''SERVICE_BUS_CONNECTION_STRING'')]
              (CreateReceiver (query req ''queueName'')) = Some s
      \<longrightarrow> receiveMessages rt br e req
            = \<lparr> res = None, uncaught = Some (Thrown s), trace = receiveStart e req \<rparr>)
   \<and> (\<forall>pre s. trace (receiveMessages rt br e req) = pre @ [ClientClose]
         \<and> throws br pre ClientClose = Some s
      \<longrightarrow> uncaught (receiveMessages rt br e req) = Some (Thrown s))"
proof (intro conjI allI impI)
  fix s
  assume a: "validateReceiveRequest e req = None
         \<and> throws br [] (NewClient (e ''SERVICE_BUS_CONNECTION_STRING'')) = Some s"
  show "receiveMessages rt br e req
            = \<lparr> res = None, uncaught = Some (Thrown s),
                trace = [NewClient (e ''SERVICE_BUS_CONNECTION_STRING'')] \<rparr>"
    using a by (cases rule: receiveMessages_cases [of e req rt br]) (simp_all add: receiveStart_def)
next
  fix s
  assume a: "validateReceiveRequest e req = None
         \<and> throws br [] (NewClient (e ''SERVICE_BUS_CONNECTION_STRING'')) = None
         \<and> throws br [NewClient (e ''SERVICE_BUS_CONNECTION_STRING'')]
              (CreateReceiver (query req ''queueName'')) = Some s"
  show "receiveMessages rt br e req
            = \<lparr> res = None, uncaught = Some (Thrown s), trace = receiveStart e req \<rparr>"
    using a by (cases rule: receiveMessages_cases [of e req rt br]) (simp_all add: receiveStart_def)
next
  fix pre s
  assume a: "trace (receiveMessages rt br e req) = pre @ [ClientClose]
         \<and> throws br pre ClientClose = Some s"
  show "uncaught (receiveMessages rt br e req) = Some (Thrown s)"
    using a by (cases rule: receiveMessages_cases [of e req rt br]) (auto simp: receiveStart_def)
qed

text \<open>The example requests are valid, and the example broker throws at one call only.\<close>

lemma example_requests_valid:
  "validateQueueRequest exampleEnv threeMessages = Inr None"
  "validateQueueRequest exampleEnv noMessages = Inr None"
  "validateReceiveRequest exampleEnv (countRequest ''2'') = None"
  "requestQueueName threeMessages = JStr ''q1''"
  "query (countRequest ''2'') ''queueName'' = Some ''q1''"
  by (simp_all add: validateQueueRequest_def validateReceiveRequest_def threeMessages_def
      noMessages_def postRequest_def sendBody_def countRequest_def getRequest_def
      envMissing_def paramMissing_def exampleEnv_simps requestQueueName_def)

lemma failsOn_simps:
  "throws (exampleBroker c queue (failsOn bad)) tr ev
     = (if ev = bad then Some ''ServiceBusError: the call failed'' else None)"
  by (simp add: exampleBroker_def failsOn_def)

text \<open>
  Claim C9, as amended. When the first call of the broker that throws is a call of the
  \<^verbatim>\<open>try\<close> block (create batch, send, receive, complete, close of the sender or of the
  receiver), the response is the 500 response with the string of what was thrown. An
  error that leaves the handler uncaught is the type error of destructuring an absent
  body (send path, no call made), or what the last call made has thrown, that call being
  the construction of the client, the creation of the sender or receiver, or the close of
  the client: these are outside the \<^verbatim>\<open>try\<close> block or in its \<^verbatim>\<open>finally\<close> part.
  And these errors do leave the handler: a body that is undefined or null makes the send
  path throw a type error with no response and no call; what the construction of the
  client or the creation of the sender or receiver throws leaves the handler with no
  response set and nothing closed; what the close of the client throws leaves the
  handler.
\<close>

theorem errors_inside_try_caught:
  "((\<forall>ev s. firstThrow br [] (trace (queueMessages rt br e req)) = Some (ev, s) \<and> insideTry ev
      \<longrightarrow> res (queueMessages rt br e req) = Some (createErrorResponse req s))
   \<and> (\<forall>err. uncaught (queueMessages rt br e req) = Some err
      \<longrightarrow> (trace (queueMessages rt br e req) = [] \<and> (\<exists>m. err = TypeError m))
        \<or> (\<exists>pre ev s. trace (queueMessages rt br e req) = pre @ [ev] \<and> \<not> insideTry ev
              \<and> throws br pre ev = Some s \<and> err = Thrown s)))
  \<and> ((\<forall>ev s. firstThrow br [] (trace (receiveMessages rt br e req)) = Some (ev, s) \<and> insideTry ev
      \<longrightarrow> res (receiveMessages rt br e req) = Some (createErrorResponse req s))
   \<and> (\<forall>err. uncaught (receiveMessages rt br e req) = Some err
      \<longrightarrow> (\<exists>pre ev s. trace (receiveMessages rt br e req) = pre @ [ev] \<and> \<not> insideTry ev
              \<and> throws br pre ev = Some s \<and> err = Thrown s)))
  \<and> ((body req = JUndefined \<or> body req = JNull
      \<longrightarrow> (\<exists>m. queueMessages rt br e req
                 = \<lparr> res = None, uncaught = Some (TypeError m), trace = [] \<rparr>))
   \<and> (\<forall>s. validateQueueRequest e req = Inr None
         \<and> throws br [] (NewClient (e ''SERVICEBUS_CONNECTION_STRING'')) = Some s
      \<longrightarrow> queueMessages rt br e req
            = \<lparr> res = None, uncaught = Some (Thrown s),
                trace = [NewClient (e ''SERVICEBUS_CONNECTION_STRING'')] \<rparr>)
   \<and> (\<forall>s. validateQueueRequest e req = Inr None
         \<and> throws br [] (NewClient (e ''SERVICEBUS_CONNECTION_STRING'')) = None
         \<and> throws br [NewClient (e ''SERVICEBUS_CONNECTION_STRING'')]
              (CreateSender (requestQueueName req)) = Some s
      \<longrightarrow> queueMessages rt br e req
            = \<lparr> res = None, uncaught = Some (Thrown s), trace = sendStart e req \<rparr>)
   \<and> (\<forall>pre s. trace (queueMessages rt br e req) = pre @ [ClientClose]
         \<and> throws br pre ClientClose = Some s
      \<longrightarrow> uncaught (queueMessages rt br e req) = Some (Thrown s)))
  \<and> ((\<forall>s. validateReceiveRequest e req = None
         \<and> throws br [] (NewClient (e ''SERVICE_BUS_CONNECTION_STRING'')) = Some s
      \<longrightarrow> receiveMessages rt br e req
            = \<lparr> res = None, uncaught = Some (Thrown s),
                trace = [NewClient (e ''SERVICE_BUS_CONNECTION_STRING'')] \<rparr>)
   \<and> (\<forall>s. validateReceiveRequest e req = None
         \<and> throws br [] (NewClient (e ''SERVICE_BUS_CONNECTION_STRING'')) = None
         \<and> throws br [NewClient (e ''SERVICE_BUS_CONNECTION_STRING'')]
              (CreateReceiver (query req ''queueName'')) = Some s
      \<longrightarrow> receiveMessages rt br e req
            = \<lparr> res = None, uncaught = Some (Thrown s), trace = receiveStart e req \<rparr>)
   \<and> (\<forall>pre s. trace (receiveMessages rt br e req) = pre @ [ClientClose]
         \<and> throws br pre ClientClose = Some s
      \<longrightarrow> uncaught (receiveMessages rt br e req) = Some (Thrown s)))"
  using queueMessages_errors [of br rt e req] receiveMessages_errors [of br rt e req]
    queueMessages_propagates [of req rt br e] receiveMessages_propagates [of e req br rt]
  by (rule conjI [OF _ conjI [OF _ conjI]])

theorem errors_inside_try_caught_witness:
  "firstThrow (exampleBroker 5 [] (failsOn (SendMessages firstBatch))) []
      (trace (queueMessages exampleRuntime (exampleBroker 5 [] (failsOn (SendMessages firstBatch)))
         exampleEnv threeMessages))
     = Some (SendMessages firstBatch, ''ServiceBusError: the call failed'')
   \<and> insideTry (SendMessages firstBatch)
   \<and> res (queueMessages exampleRuntime (exampleBroker 5 [] (failsOn (SendMessages firstBatch)))
         exampleEnv threeMessages)
     = Some (createErrorResponse threeMessages ''ServiceBusError: the call failed'')
   \<and> firstThrow (exampleBroker 5 [message1, message2] (failsOn (CompleteMessage message2))) []
      (trace (receiveMessages exampleRuntime
        (exampleBroker 5 [message1, message2] (failsOn (CompleteMessage message2)))
        exampleEnv (countRequest ''2'')))
     = Some (CompleteMessage message2, ''ServiceBusError: the call failed'')
   \<and> insideTry (CompleteMessage message2)
   \<and> res (receiveMessages exampleRuntime
        (exampleBroker 5 [message1, message2] (failsOn (CompleteMessage message2)))
        exampleEnv (countRequest ''2''))
     = Some (createErrorResponse (countRequest ''2'') ''ServiceBusError: the call failed'')
   \<and> body (postRequest JUndefined) = JUndefined
   \<and> res (queueMessages exampleRuntime (exampleBroker 5 [] neverFails) exampleEnv
        (postRequest JUndefined)) = None
   \<and> uncaught (queueMessages exampleRuntime (exampleBroker 5 [] neverFails) exampleEnv
        (postRequest JUndefined)) \<noteq> None
   \<and> validateQueueRequest exampleEnv threeMessages = Inr None
   \<and> throws (exampleBroker 5 [] (failsOn theClient)) []
        (NewClient (exampleEnv ''SERVICEBUS_CONNECTION_STRING''))
      = Some ''ServiceBusError: the call failed''
   \<and> queueMessages exampleRuntime (exampleBroker 5 [] (failsOn theClient)) exampleEnv threeMessages
      = \<lparr> res = None, uncaught = Some (Thrown ''ServiceBusError: the call failed''),
          trace = [theClient] \<rparr>
   \<and> throws (exampleBroker 5 [] (failsOn (CreateSender (JStr ''q1''))))
        [NewClient (exampleEnv ''SERVICEBUS_CONNECTION_STRING'')]
        (CreateSender (requestQueueName threeMessages))
      = Some ''ServiceBusError: the call failed''
   \<and> queueMessages exampleRuntime (exampleBroker 5 [] (failsOn (CreateSender (JStr ''q1''))))
        exampleEnv threeMessages
      = \<lparr> res = None, uncaught = Some (Thrown ''ServiceBusError: the call failed''),
          trace = [theClient, CreateSender (JStr ''q1'')] \<rparr>
   \<and> trace (queueMessages exampleRuntime (exampleBroker 5 [] (failsOn ClientClose)) exampleEnv
        noMessages)
      = [theClient, CreateSender (JStr ''q1''), CreateMessageBatch,
         SendMessages \<lparr>maxSizeInBytes = 5, items = []\<rparr>, SenderClose] @ [ClientClose]
   \<and> uncaught (queueMessages exampleRuntime (exampleBroker 5 [] (failsOn ClientClose)) exampleEnv
        noMessages) = Some (Thrown ''ServiceBusError: the call failed'')
   \<and> validateReceiveRequest exampleEnv (countRequest ''2'') = None
   \<and> receiveMessages exampleRuntime (exampleBroker 5 [] (failsOn theClient)) exampleEnv
        (countRequest ''2'')
      = \<lparr> res = None, uncaught = Some (Thrown ''ServiceBusError: the call failed''),
          trace = [theClient] \<rparr>
   \<and> receiveMessages exampleRuntime (exampleBroker 5 [] (failsOn (CreateReceiver (Some ''q1''))))
        exampleEnv (countRequest ''2'')
      = \<lparr> res = None, uncaught = Some (Thrown ''ServiceBusError: the call failed''),
          trace = [theClient, CreateReceiver (Some ''q1'')] \<rparr>
   \<and> trace (receiveMessages exampleRuntime (exampleBroker 5 [] (failsOn ClientClose)) exampleEnv
        (countRequest ''2''))
      = [theClient, CreateReceiver (Some ''q1''), ReceiveMessages (Fin 2) 20000, ReceiverClose]
        @ [ClientClose]
   \<and> uncaught (receiveMessages exampleRuntime (exampleBroker 5 [] (failsOn ClientClose)) exampleEnv
        (countRequest ''2'')) = Some (Thrown ''ServiceBusError: the call failed'')"
proof -
  let ?s = "''ServiceBusError: the call failed''"
  let ?b1 = "exampleBroker 5 [] (failsOn (SendMessages firstBatch))"
  let ?b2 = "exampleBroker 5 [] (failsOn ClientClose)"
  let ?b3 = "exampleBroker 5 [message1, message2] (failsOn (CompleteMessage message2))"
  let ?b4 = "exampleBroker 5 [] (failsOn theClient)"
  let ?b5 = "exampleBroker 5 [] (failsOn (CreateSender (JStr ''q1'')))"
  let ?b6 = "exampleBroker 5 [] (failsOn (CreateReceiver (Some ''q1'')))"
  let ?b0 = "exampleBroker 5 [] neverFails"
  note v = example_requests_valid
  have cs: "NewClient (exampleEnv ''SERVICEBUS_CONNECTION_STRING'') = theClient"
    "NewClient (exampleEnv ''SERVICE_BUS_CONNECTION_STRING'') = theClient"
    by (simp_all add: exampleEnv_simps theClient_def)
  have f1: "firstThrow ?b1 [] (trace (queueMessages exampleRuntime ?b1 exampleEnv threeMessages))
     = Some (SendMessages firstBatch, ?s)"
    by (simp add: sendFails_run) (simp add: failsOn_simps theClient_def)
  have i1: "insideTry (SendMessages firstBatch)" by simp
  have f3: "firstThrow ?b3 [] (trace (receiveMessages exampleRuntime ?b3 exampleEnv (countRequest ''2'')))
     = Some (CompleteMessage message2, ?s)"
    by (simp add: secondCompleteFails_run)
      (simp add: failsOn_simps message1_def message2_def)
  have i3: "insideTry (CompleteMessage message2)" by simp
  note t1 = errors_inside_try_caught [of ?b1 exampleRuntime exampleEnv threeMessages]
  note t3 = errors_inside_try_caught [of ?b3 exampleRuntime exampleEnv "countRequest ''2''"]
  have r1: "res (queueMessages exampleRuntime ?b1 exampleEnv threeMessages)
     = Some (createErrorResponse threeMessages ?s)"
    by (rule t1 [THEN conjunct1, THEN conjunct1, rule_format, OF conjI [OF f1 i1]])
  have r3: "res (receiveMessages exampleRuntime ?b3 exampleEnv (countRequest ''2''))
     = Some (createErrorResponse (countRequest ''2'') ?s)"
    by (rule t3 [THEN conjunct2, THEN conjunct1, THEN conjunct1, rule_format, OF conjI [OF f3 i3]])
  note ta = errors_inside_try_caught [of ?b0 exampleRuntime exampleEnv "postRequest JUndefined"]
  have ba: "body (postRequest JUndefined) = JUndefined" by (simp add: postRequest_def)
  from ta [THEN conjunct2, THEN conjunct2, THEN conjunct1, THEN conjunct1, rule_format,
      OF disjI1 [OF ba]]
  have a: "res (queueMessages exampleRuntime ?b0 exampleEnv (postRequest JUndefined)) = None
     \<and> uncaught (queueMessages exampleRuntime ?b0 exampleEnv (postRequest JUndefined)) \<noteq> None"
    by auto
  note t4 = errors_inside_try_caught [of ?b4 exampleRuntime exampleEnv threeMessages]
  have h4: "throws ?b4 [] (NewClient (exampleEnv ''SERVICEBUS_CONNECTION_STRING'')) = Some ?s"
    by (simp add: failsOn_simps cs)
  have c4: "queueMessages exampleRuntime ?b4 exampleEnv threeMessages
      = \<lparr> res = None, uncaught = Some (Thrown ?s), trace = [theClient] \<rparr>"
    using t4 [THEN conjunct2, THEN conjunct2, THEN conjunct1, THEN conjunct2, THEN conjunct1,
      rule_format, OF conjI [OF v(1) h4]]
    by (simp add: cs)
  note t5 = errors_inside_try_caught [of ?b5 exampleRuntime exampleEnv threeMessages]
  have h5a: "throws ?b5 [] (NewClient (exampleEnv ''SERVICEBUS_CONNECTION_STRING'')) = None"
    and h5: "throws ?b5 [NewClient (exampleEnv ''SERVICEBUS_CONNECTION_STRING'')]
        (CreateSender (requestQueueName threeMessages)) = Some ?s"
    by (simp_all add: failsOn_simps v(4))
  have c5: "queueMessages exampleRuntime ?b5 exampleEnv threeMessages
      = \<lparr> res = None, uncaught = Some (Thrown ?s), trace = [theClient, CreateSender (JStr ''q1'')] \<rparr>"
    using t5 [THEN conjunct2, THEN conjunct2, THEN conjunct1, THEN conjunct2, THEN conjunct2,
      THEN conjunct1, rule_format, OF conjI [OF v(1) conjI [OF h5a h5]]]
    by (simp add: sendStart_def cs v(4))
  note t2 = errors_inside_try_caught [of ?b2 exampleRuntime exampleEnv noMessages]
  have tr2: "trace (queueMessages exampleRuntime ?b2 exampleEnv noMessages)
      = [theClient, CreateSender (JStr ''q1''), CreateMessageBatch,
         SendMessages \<lparr>maxSizeInBytes = 5, items = []\<rparr>, SenderClose] @ [ClientClose]"
    by (simp add: clientCloseFails_run(2))
  have h2: "throws ?b2 [theClient, CreateSender (JStr ''q1''), CreateMessageBatch,
         SendMessages \<lparr>maxSizeInBytes = 5, items = []\<rparr>, SenderClose] ClientClose = Some ?s"
    by (simp add: failsOn_simps)
  have c2: "uncaught (queueMessages exampleRuntime ?b2 exampleEnv noMessages) = Some (Thrown ?s)"
    by (rule t2 [THEN conjunct2, THEN conjunct2, THEN conjunct1, THEN conjunct2, THEN conjunct2,
      THEN conjunct2, rule_format, OF conjI [OF tr2 h2]])
  note t6 = errors_inside_try_caught [of ?b4 exampleRuntime exampleEnv "countRequest ''2''"]
  have h6: "throws ?b4 [] (NewClient (exampleEnv ''SERVICE_BUS_CONNECTION_STRING'')) = Some ?s"
    by (simp add: failsOn_simps cs)
  have c6: "receiveMessages exampleRuntime ?b4 exampleEnv (countRequest ''2'')
      = \<lparr> res = None, uncaught = Some (Thrown ?s), trace = [theClient] \<rparr>"
    using t6 [THEN conjunct2, THEN conjunct2, THEN conjunct2, THEN conjunct1,
      rule_format, OF conjI [OF v(3) h6]]
    by (simp add: cs)
  note t7 = errors_inside_try_caught [of ?b6 exampleRuntime exampleEnv "countRequest ''2''"]
  have h7a: "throws ?b6 [] (NewClient (exampleEnv ''SERVICE_BUS_CONNECTION_STRING'')) = None"
    and h7: "throws ?b6 [NewClient (exampleEnv ''SERVICE_BUS_CONNECTION_STRING'')]
        (CreateReceiver (query (countRequest ''2'') ''queueName'')) = Some ?s"
    by (simp_all add: failsOn_simps v(5))
  have c7: "receiveMessages exampleRuntime ?b6 exampleEnv (countRequest ''2'')
      = \<lparr> res = None, uncaught = Some (Thrown ?s), trace = [theClient, CreateReceiver (Some ''q1'')] \<rparr>"
    using t7 [THEN conjunct2, THEN conjunct2, THEN conjunct2, THEN conjunct2, THEN conjunct1,
      rule_format, OF conjI [OF v(3) conjI [OF h7a h7]]]
    by (simp add: receiveStart_def cs v(5))
  note t8 = errors_inside_try_caught [of ?b2 exampleRuntime exampleEnv "countRequest ''2''"]
  have tr8: "trace (receiveMessages exampleRuntime ?b2 exampleEnv (countRequest ''2''))
      = [theClient, CreateReceiver (Some ''q1''), ReceiveMessages (Fin 2) 20000, ReceiverClose]
        @ [ClientClose]"
    by (simp add: clientCloseFails_run(4))
  have h8: "throws ?b2 [theClient, CreateReceiver (Some ''q1''), ReceiveMessages (Fin 2) 20000,
      ReceiverClose] ClientClose = Some ?s"
    by (simp add: failsOn_simps)
  have c8: "uncaught (receiveMessages exampleRuntime ?b2 exampleEnv (countRequest ''2'')) = Some (Thrown ?s)"
    by (rule t8 [THEN conjunct2, THEN conjunct2, THEN conjunct2, THEN conjunct2, THEN conjunct2,
      rule_format, OF conjI [OF tr8 h8]])
  have h5': "throws ?b5 [NewClient (exampleEnv ''SERVICEBUS_CONNECTION_STRING'')]
        (CreateSender (requestQueueName threeMessages)) = Some ?s"
    by (rule h5)
  show ?thesis
    by (intro conjI f1 i1 r1 f3 i3 r3 ba a [THEN conjunct1] a [THEN conjunct2] v(1) h4 c4 h5' c5
        tr2 c2 v(3) c6 c7 tr8 c8)
qed

text \<open>
  Claim C9 as the spec states it fails: an error of the construction of the client is
  not caught. It leaves the handler, and no response is set.
\<close>

theorem constructor_error_uncaught_counterexample:
  "queueMessages exampleRuntime (exampleBroker 5 [] (failsOn theClient)) exampleEnv threeMessages
     = \<lparr> res = None, uncaught = Some (Thrown ''ServiceBusError: the call failed''),
         trace = [theClient] \<rparr>"
  by (rule constructorFails_run)

section \<open>The order of the validation checks\<close>

text \<open>
  Claim C10, as amended. Both validators test the connection string before the queueName:
  a request that lacks both (on the send path, a request whose body can be destructured
  and has no truthy queueName) is answered 500 by the validator and by the handler, with
  no broker call. Whatever the body and the queueName, a request that finds the
  connection string missing is never answered 400. On the send path a request whose
  body is undefined or null is not answered at all: destructuring the body throws a type
  error before both tests.
\<close>

theorem missing_both_is_500:
  "(envMissing e ''SERVICEBUS_CONNECTION_STRING'' \<and> getProp (body req) ''queueName'' = Inr q \<and> \<not> truthy q
      \<longrightarrow> validateQueueRequest e req = Inr (Some (createErrorResponse req
              (CHR 0x27 # ''SERVICEBUS_CONNECTION_STRING' is missing from environment variables!'')))
        \<and> (\<exists>r. queueMessages rt br e req = \<lparr> res = Some r, uncaught = None, trace = [] \<rparr>
               \<and> status r = 500 \<and> body_status (res_body r) = 500))
   \<and> (envMissing e ''SERVICE_BUS_CONNECTION_STRING'' \<and> paramMissing (query req ''queueName'')
      \<longrightarrow> validateReceiveRequest e req = Some (createErrorResponse req
              (CHR 0x27 # ''SERVICE_BUS_CONNECTION_STRING' is missing from environment variables!''))
        \<and> (\<exists>r. receiveMessages rt br e req = \<lparr> res = Some r, uncaught = None, trace = [] \<rparr>
               \<and> status r = 500 \<and> body_status (res_body r) = 500))
   \<and> (envMissing e ''SERVICEBUS_CONNECTION_STRING''
      \<longrightarrow> (\<forall>r. res (queueMessages rt br e req) = Some r \<longrightarrow> status r \<noteq> 400))
   \<and> (envMissing e ''SERVICE_BUS_CONNECTION_STRING''
      \<longrightarrow> (\<forall>r. res (receiveMessages rt br e req) = Some r \<longrightarrow> status r \<noteq> 400))
   \<and> (body req = JUndefined \<or> body req = JNull
      \<longrightarrow> (\<exists>m. queueMessages rt br e req
                 = \<lparr> res = None, uncaught = Some (TypeError m), trace = [] \<rparr>))"
proof (intro conjI impI allI)
  assume a: "envMissing e ''SERVICEBUS_CONNECTION_STRING'' \<and> getProp (body req) ''queueName'' = Inr q \<and> \<not> truthy q"
  then have "body req \<noteq> JUndefined" "body req \<noteq> JNull" by auto
  then obtain ms where ms: "getProp (body req) ''messages'' = Inr ms"
    by (cases "body req") auto
  show v: "validateQueueRequest e req = Inr (Some (createErrorResponse req
              (CHR 0x27 # ''SERVICEBUS_CONNECTION_STRING' is missing from environment variables!'')))"
    using a ms by (simp add: validateQueueRequest_def)
  show "\<exists>r. queueMessages rt br e req = \<lparr> res = Some r, uncaught = None, trace = [] \<rparr>
               \<and> status r = 500 \<and> body_status (res_body r) = 500"
    by (simp add: queueMessages_def v createErrorResponse_def)
next
  assume a: "envMissing e ''SERVICE_BUS_CONNECTION_STRING'' \<and> paramMissing (query req ''queueName'')"
  show v: "validateReceiveRequest e req = Some (createErrorResponse req
              (CHR 0x27 # ''SERVICE_BUS_CONNECTION_STRING' is missing from environment variables!''))"
    using a by (simp add: validateReceiveRequest_def)
  show "\<exists>r. receiveMessages rt br e req = \<lparr> res = Some r, uncaught = None, trace = [] \<rparr>
               \<and> status r = 500 \<and> body_status (res_body r) = 500"
    by (simp add: receiveMessages_def v createErrorResponse_def)
next
  fix r
  assume "envMissing e ''SERVICEBUS_CONNECTION_STRING''"
    and "res (queueMessages rt br e req) = Some r"
  then show "status r \<noteq> 400"
    by (auto simp: queueMessages_def validateQueueRequest_def status_createErrorResponse
        split: sum.splits)
next
  fix r
  assume "envMissing e ''SERVICE_BUS_CONNECTION_STRING''"
    and "res (receiveMessages rt br e req) = Some r"
  then show "status r \<noteq> 400"
    by (auto simp: receiveMessages_def validateReceiveRequest_def status_createErrorResponse)
next
  assume "body req = JUndefined \<or> body req = JNull"
  then show "\<exists>m. queueMessages rt br e req
                 = \<lparr> res = None, uncaught = Some (TypeError m), trace = [] \<rparr>"
    by (rule queueMessages_propagates [THEN conjunct1, rule_format])
qed

theorem missing_both_is_500_witness:
  "envMissing Map.empty ''SERVICEBUS_CONNECTION_STRING''
   \<and> getProp (body (postRequest (JObj []))) ''queueName'' = Inr JUndefined \<and> \<not> truthy JUndefined
   \<and> map_option status (res (queueMessages exampleRuntime (exampleBroker 5 [] neverFails) Map.empty (postRequest (JObj [])))) = Some 500
   \<and> envMissing Map.empty ''SERVICE_BUS_CONNECTION_STRING''
   \<and> paramMissing (query (getRequest []) ''queueName'')
   \<and> map_option status (res (receiveMessages exampleRuntime (exampleBroker 5 [] neverFails) Map.empty (getRequest []))) = Some 500
   \<and> body (postRequest JNull) = JNull
   \<and> res (queueMessages exampleRuntime (exampleBroker 5 [] neverFails) Map.empty (postRequest JNull)) = None
   \<and> trace (queueMessages exampleRuntime (exampleBroker 5 [] neverFails) Map.empty (postRequest JNull)) = []"
proof -
  let ?br = "exampleBroker 5 [] neverFails"
  have h1: "envMissing Map.empty ''SERVICEBUS_CONNECTION_STRING''
   \<and> getProp (body (postRequest (JObj []))) ''queueName'' = Inr JUndefined \<and> \<not> truthy JUndefined"
    by (simp add: envMissing_def postRequest_def)
  have h2: "envMissing Map.empty ''SERVICE_BUS_CONNECTION_STRING''
   \<and> paramMissing (query (getRequest []) ''queueName'')"
    by (simp add: envMissing_def paramMissing_def getRequest_def)
  have h3: "body (postRequest JNull) = JNull" by (simp add: postRequest_def)
  note t1 = missing_both_is_500 [of Map.empty "postRequest (JObj [])" JUndefined exampleRuntime ?br]
  note t2 = missing_both_is_500 [of Map.empty "getRequest []" JUndefined exampleRuntime ?br]
  note t3 = missing_both_is_500 [of Map.empty "postRequest JNull" JUndefined exampleRuntime ?br]
  from t1 [THEN conjunct1, rule_format, OF h1]
  have c1: "map_option status (res (queueMessages exampleRuntime ?br Map.empty (postRequest (JObj [])))) = Some 500"
    by auto
  from t2 [THEN conjunct2, THEN conjunct1, rule_format, OF h2]
  have c2: "map_option status (res (receiveMessages exampleRuntime ?br Map.empty (getRequest []))) = Some 500"
    by auto
  from t3 [THEN conjunct2, THEN conjunct2, THEN conjunct2, THEN conjunct2, rule_format,
      OF disjI2 [OF h3]]
  have c3: "res (queueMessages exampleRuntime ?br Map.empty (postRequest JNull)) = None
    \<and> trace (queueMessages exampleRuntime ?br Map.empty (postRequest JNull)) = []"
    by auto
  from h1 h2 h3 c1 c2 c3 show ?thesis by blast
qed

text \<open>
  Claim C10 as the spec states it fails: a request that lacks both the connection string
  and the queueName does not always receive a 500 response. A POST without a body has
  no queueName; with the connection string missing as well it receives no response, the
  type error of destructuring the body leaves the handler.
\<close>

theorem missing_both_no_body_counterexample:
  "envMissing Map.empty ''SERVICEBUS_CONNECTION_STRING''
   \<and> body (postRequest JUndefined) = JUndefined
   \<and> queueMessages exampleRuntime (exampleBroker 5 [] neverFails) Map.empty (postRequest JUndefined)
     = \<lparr> res = None,
         uncaught = Some (TypeError (''Cannot destructure property '' @ ''queueName'')),
         trace = [] \<rparr>"
  by (simp add: envMissing_def postRequest_def queueMessages_def validateQueueRequest_def)

end
